theory Spec2Isabelle
  imports Complex_Main "HOL-Library.Multiset"
begin

section \<open>Strings and instants\<close>

text \<open>
  A JavaScript string is a sequence of UTF-16 code units. The model uses \<^typ>\<open>string\<close>
  and reads each \<^typ>\<open>char\<close> as one code unit in the range 0..255; text with code units
  above 255 is outside the model. An instant (a \<^verbatim>\<open>Date\<close>) is its number of
  milliseconds since the epoch, an \<^typ>\<open>int\<close>; a deadline that is \<^verbatim>\<open>null\<close>,
  \<^verbatim>\<open>undefined\<close> or the empty string is \<^term>\<open>None\<close>.
\<close>

text \<open>
  The code units below 256 that \<^verbatim>\<open>String.prototype.trim\<close> (and the regular
  expression class \<^verbatim>\<open>\s\<close> that the validator's \<^verbatim>\<open>trim()\<close> uses) removes:
  TAB, LF, VT, FF, CR, SPACE and NBSP.
\<close>

definition is_space :: "char \<Rightarrow> bool" where
  "is_space c = ((of_char c :: nat) \<in> {9, 10, 11, 12, 13, 32, 160})"

definition trim :: "string \<Rightarrow> string" where
  "trim s = rev (dropWhile is_space (rev (dropWhile is_space s)))"

section \<open>The deadline classifier (client)\<close>

text \<open>
  \<^verbatim>\<open>isOverdue\<close> and \<^verbatim>\<open>getDeadlineStatus\<close> are written twice in the
  source, once in the offline \<^verbatim>\<open>App\<close> and once in \<^verbatim>\<open>TodoApp\<close>, with the same
  text; both close over \<^verbatim>\<open>const now = new Date()\<close>, which is the first argument
  here. JavaScript numbers are modelled as exact rationals: the operands are integers of
  milliseconds, and the two quotients are only compared with 24, 1 and 3.
\<close>

datatype deadline_status = StatusNone | Overdue | Today | Soon | Normal

definition isOverdue :: "int \<Rightarrow> int option \<Rightarrow> bool" where
  "isOverdue now deadline =
     (case deadline of
        None \<Rightarrow> False
      | Some deadlineDate \<Rightarrow> deadlineDate < now)"

definition getDeadlineStatus :: "int \<Rightarrow> int option \<Rightarrow> bool \<Rightarrow> deadline_status" where
  "getDeadlineStatus now deadline completed =
     (case deadline of
        None \<Rightarrow> StatusNone
      | Some deadlineDate \<Rightarrow>
          if completed then StatusNone
          else
            let diffTime = deadlineDate - now;
                diffHours = (of_int diffTime :: rat) / (1000 * 60 * 60);
                diffDays = \<lceil>(of_int diffTime :: rat) / (1000 * 60 * 60 * 24)\<rceil>
            in if diffTime < 0 then Overdue
               else if diffHours \<le> 24 \<and> diffDays \<le> 1 then Today
               else if diffDays \<le> 3 then Soon
               else Normal)"

section \<open>Client presentation state: editing\<close>

text \<open>
  \<^verbatim>\<open>new Date(s)\<close> on a date-time string is the runtime's parser, a parameter
  \<open>parseDate\<close> of the model: \<^term>\<open>None\<close> is \<^verbatim>\<open>Invalid Date\<close>, on which
  \<^verbatim>\<open>toISOString()\<close> throws a \<^verbatim>\<open>RangeError\<close>.
\<close>

datatype js_error = RangeError

definition composeDeadline ::
  "(string \<Rightarrow> int option) \<Rightarrow> string \<Rightarrow> string \<Rightarrow> js_error + int option" where
  "composeDeadline parseDate dateInput timeInput =
     (if dateInput = [] then Inr None
      else
        (case parseDate (dateInput @ ''T'' @ (if timeInput = [] then ''23:59'' else timeInput)) of
           None \<Rightarrow> Inl RangeError
         | Some instant \<Rightarrow> Inr (Some instant)))"

subsection \<open>The offline \<^verbatim>\<open>App\<close>\<close>

record local_todo =
  l_id :: nat
  l_text :: string
  l_completed :: bool
  l_deadline :: "int option"
  l_createdAt :: int

record app_state =
  a_todos :: "local_todo list"
  a_newTodo :: string
  a_newDeadline :: string
  a_newTime :: string
  a_filter :: string
  a_editingId :: "nat option"
  a_editText :: string
  a_editDeadline :: string
  a_editTime :: string
  a_sortBy :: string

text \<open>
  \<^verbatim>\<open>saveEdit\<close> of the offline \<^verbatim>\<open>App\<close>: the update of the list is guarded by the
  trimmed text, the four resets of the edit session follow the guard unconditionally. An
  exception from \<^verbatim>\<open>toISOString()\<close> leaves the handler before any setter ran.
\<close>

definition saveEdit :: "(string \<Rightarrow> int option) \<Rightarrow> app_state \<Rightarrow> js_error + app_state" where
  "saveEdit parseDate s =
     (let leave = (\<lambda>s'. s'\<lparr>a_editingId := None, a_editText := [],
                                a_editDeadline := [], a_editTime := []\<rparr>)
      in if trim (a_editText s) \<noteq> [] then
           (case composeDeadline parseDate (a_editDeadline s) (a_editTime s) of
              Inl e \<Rightarrow> Inl e
            | Inr deadlineDateTime \<Rightarrow>
                Inr (leave (s\<lparr>a_todos :=
                  map (\<lambda>todo. if Some (l_id todo) = a_editingId s
                               then todo\<lparr>l_text := trim (a_editText s),
                                         l_deadline := deadlineDateTime\<rparr>
                               else todo)
                      (a_todos s)\<rparr>)))
         else Inr (leave s))"

subsection \<open>The backend-integrated \<^verbatim>\<open>TodoApp\<close>\<close>

record todo =
  t_id :: nat
  t_user :: nat
  t_text :: string
  t_completed :: bool
  t_deadline :: "int option"
  t_priority :: string
  t_category :: "string option"
  t_createdAt :: int
  t_updatedAt :: int

record update_data =
  u_text :: string
  u_deadline :: "int option"

record todoapp_state =
  c_todos :: "todo list"
  c_newTodo :: string
  c_newDeadline :: string
  c_newTime :: string
  c_filter :: string
  c_editingId :: "nat option"
  c_editText :: string
  c_editDeadline :: string
  c_editTime :: string
  c_sortBy :: string
  c_loading :: bool
  c_error :: string

text \<open>
  \<^verbatim>\<open>saveEdit\<close> of \<^verbatim>\<open>TodoApp\<close>. The request \<^verbatim>\<open>api.put\<close> is the parameter
  \<open>api_put\<close>: \<^term>\<open>None\<close> when the request fails (the promise rejects), the updated
  task of the response otherwise. Here the resets of the edit session are inside the guard
  and inside the \<^verbatim>\<open>try\<close> block, after the request; every exception is caught and
  sets the error message.
\<close>

definition saveEdit_remote ::
  "(string \<Rightarrow> int option) \<Rightarrow> (nat option \<Rightarrow> update_data \<Rightarrow> todo option) \<Rightarrow>
     todoapp_state \<Rightarrow> todoapp_state" where
  "saveEdit_remote parseDate api_put s =
     (if trim (c_editText s) \<noteq> [] then
        (case composeDeadline parseDate (c_editDeadline s) (c_editTime s) of
           Inl e \<Rightarrow> s\<lparr>c_error := ''Failed to update todo. Please try again.''\<rparr>
         | Inr deadlineDateTime \<Rightarrow>
             (case api_put (c_editingId s)
                     \<lparr>u_text = trim (c_editText s), u_deadline = deadlineDateTime\<rparr> of
                None \<Rightarrow> s\<lparr>c_error := ''Failed to update todo. Please try again.''\<rparr>
              | Some updated \<Rightarrow>
                  s\<lparr>c_todos := map (\<lambda>todo. if Some (t_id todo) = c_editingId s
                                           then updated else todo) (c_todos s),
                    c_editingId := None, c_editText := [], c_editDeadline := [],
                    c_editTime := [], c_error := []\<rparr>))
      else s)"

section \<open>The task store (server)\<close>

text \<open>
  A task document is a \<^typ>\<open>todo\<close>, shaped by the schema of \<^verbatim>\<open>models/Todo.js\<close>:
  \<open>completed\<close> is a Boolean with default \<open>false\<close>, \<open>deadline\<close> a Date with default
  \<open>null\<close> (\<^term>\<open>None\<close>), \<open>priority\<close> a string with default \<open>medium\<close>, \<open>category\<close> an
  optional string, and the two timestamps are kept by the store. The collection is the
  list of its documents; users and documents are identified by natural numbers.
\<close>

subsection \<open>Values and their comparison order\<close>

text \<open>
  The values a field of a task takes, as the store sees them. The store compares values
  of different types by the rank of their type (null before strings before Booleans
  before dates) and values of one type by their own order; strings are compared code
  unit by code unit. This is the order of \<^verbatim>\<open>sort\<close> and of the aggregation
  operator \<^verbatim>\<open>$lt\<close>, which compares its two operands by value and type and,
  unlike the query operator of the same name, does not ask that their types agree.
\<close>

datatype bson = BNull | BString string | BBool bool | BDate int

fun bson_rank :: "bson \<Rightarrow> nat" where
  "bson_rank BNull = 2"
| "bson_rank (BString s) = 4"
| "bson_rank (BBool b) = 9"
| "bson_rank (BDate d) = 10"

fun string_less :: "string \<Rightarrow> string \<Rightarrow> bool" where
  "string_less [] [] = False"
| "string_less [] (y # ys) = True"
| "string_less (x # xs) [] = False"
| "string_less (x # xs) (y # ys) =
     ((of_char x :: nat) < of_char y \<or> (x = y \<and> string_less xs ys))"

fun bson_lt :: "bson \<Rightarrow> bson \<Rightarrow> bool" where
  "bson_lt (BString s) (BString t) = string_less s t"
| "bson_lt (BBool x) (BBool y) = (\<not> x \<and> y)"
| "bson_lt (BDate x) (BDate y) = (x < y)"
| "bson_lt a b = (bson_rank a < bson_rank b)"

text \<open>How \<^verbatim>\<open>$cond\<close> reads a value as a condition: null and \<open>false\<close> are false.\<close>

fun truthy :: "bson \<Rightarrow> bool" where
  "truthy BNull = False"
| "truthy (BBool b) = b"
| "truthy v = True"

definition field_completed :: "todo \<Rightarrow> bson" where
  "field_completed t = BBool (t_completed t)"

definition field_deadline :: "todo \<Rightarrow> bson" where
  "field_deadline t = (case t_deadline t of None \<Rightarrow> BNull | Some d \<Rightarrow> BDate d)"

text \<open>
  What a handler answers instead of its result: the validation errors (status 400, the
  names of the fields that fail), or the answer of its \<^verbatim>\<open>catch\<close> block when the
  store throws (status 500).
\<close>

datatype api_error = ValidationFailed "string list" | ServerError

subsection \<open>Statistics: \<^verbatim>\<open>GET /todos/stats/summary\<close>\<close>

record stats =
  s_total :: nat
  s_completed :: nat
  s_pending :: nat
  s_overdue :: nat

record stats_response =
  sr_success :: bool
  sr_data :: stats

text \<open>
  One step of the \<^verbatim>\<open>$group\<close> stage: the four \<^verbatim>\<open>$sum\<close> accumulators take in one
  document. \<open>now\<close> is the \<^verbatim>\<open>new Date()\<close> of the pipeline.
\<close>

definition group_step :: "int \<Rightarrow> stats \<Rightarrow> todo \<Rightarrow> stats" where
  "group_step now acc t =
     \<lparr>s_total = s_total acc + 1,
      s_completed = s_completed acc + (if truthy (field_completed t) then 1 else 0),
      s_pending = s_pending acc + (if truthy (field_completed t) then 0 else 1),
      s_overdue = s_overdue acc +
        (if bson_lt (field_deadline t) (BDate now) \<and> field_completed t = BBool False
         then 1 else 0)\<rparr>"

text \<open>
  The pipeline \<^verbatim>\<open>$match\<close>, \<^verbatim>\<open>$group\<close> with \<^verbatim>\<open>_id: null\<close>: one group over the
  owner's documents, and no group at all when there is no document.
\<close>

definition aggregate_stats :: "int \<Rightarrow> todo list \<Rightarrow> nat \<Rightarrow> stats list" where
  "aggregate_stats now store uid =
     (case filter (\<lambda>t. t_user t = uid) store of
        [] \<Rightarrow> []
      | matched \<Rightarrow>
          [foldl (group_step now)
             \<lparr>s_total = 0, s_completed = 0, s_pending = 0, s_overdue = 0\<rparr> matched])"

definition stats_summary :: "int \<Rightarrow> todo list \<Rightarrow> nat \<Rightarrow> stats_response" where
  "stats_summary now store uid =
     (let stats = aggregate_stats now store uid;
          result = (case stats of
                      [] \<Rightarrow> \<lparr>s_total = 0, s_completed = 0, s_pending = 0, s_overdue = 0\<rparr>
                    | first # _ \<Rightarrow> first)
      in \<lparr>sr_success = True, sr_data = result\<rparr>)"

subsection \<open>Bulk actions: \<^verbatim>\<open>PATCH /todos/bulk\<close>\<close>

text \<open>
  The result objects of the store's \<^verbatim>\<open>updateMany\<close> and \<^verbatim>\<open>deleteMany\<close>: the first
  has a \<^verbatim>\<open>modifiedCount\<close> and no \<^verbatim>\<open>deletedCount\<close>, the second the reverse.
  \<^verbatim>\<open>updateMany\<close> also stamps \<^verbatim>\<open>updatedAt\<close> (the schema has timestamps).
\<close>

record write_result =
  w_modifiedCount :: "nat option"
  w_deletedCount :: "nat option"

definition updateMany_completed :: "int \<Rightarrow> (todo \<Rightarrow> bool) \<Rightarrow> todo list \<Rightarrow> todo list \<times> write_result" where
  "updateMany_completed now p store =
     (map (\<lambda>t. if p t then t\<lparr>t_completed := True, t_updatedAt := now\<rparr> else t) store,
      \<lparr>w_modifiedCount = Some (length (filter p store)), w_deletedCount = None\<rparr>)"

definition deleteMany :: "(todo \<Rightarrow> bool) \<Rightarrow> todo list \<Rightarrow> todo list \<times> write_result" where
  "deleteMany p store =
     (filter (\<lambda>t. \<not> p t) store,
      \<lparr>w_modifiedCount = None, w_deletedCount = Some (length (filter p store))\<rparr>)"

text \<open>JavaScript's \<^verbatim>\<open>a || b\<close> on counts: \<^verbatim>\<open>undefined\<close> and 0 are falsy.\<close>

definition js_or :: "nat option \<Rightarrow> nat option \<Rightarrow> nat option" where
  "js_or a b = (case a of None \<Rightarrow> b | Some n \<Rightarrow> if n = 0 then b else Some n)"

record bulk_response =
  br_success :: bool
  br_message :: string
  br_modifiedCount :: nat

definition bulk ::
  "int \<Rightarrow> todo list \<Rightarrow> nat \<Rightarrow> string \<Rightarrow> api_error + (todo list \<times> bulk_response)" where
  "bulk now store uid action =
     (if action \<notin> set [''complete-all'', ''delete-completed'', ''delete-all'']
      then Inl (ValidationFailed [''action''])
      else
        let (store', result) =
              (if action = ''complete-all'' then
                 updateMany_completed now (\<lambda>t. t_user t = uid \<and> t_completed t = False) store
               else if action = ''delete-completed'' then
                 deleteMany (\<lambda>t. t_user t = uid \<and> t_completed t = True) store
               else
                 deleteMany (\<lambda>t. t_user t = uid) store)
        in Inr (store',
                \<lparr>br_success = True,
                 br_message = ''Bulk '' @ action @ '' completed successfully'',
                 br_modifiedCount =
                   (case js_or (js_or (w_modifiedCount result) (w_deletedCount result)) (Some 0) of
                      None \<Rightarrow> 0
                    | Some n \<Rightarrow> n)\<rparr>))"

subsection \<open>Creation: \<^verbatim>\<open>POST /todos\<close>\<close>

text \<open>
  The request body. A deadline is absent, a string that is not an ISO 8601 date, or a
  date with its instant; \<open>b_completed\<close> is whatever the caller put under the key
  \<^verbatim>\<open>completed\<close>.
\<close>

datatype date_input = DateAbsent | DateMalformed | DateValue int

record create_body =
  b_text :: "string option"
  b_deadline :: date_input
  b_priority :: "string option"
  b_category :: "string option"
  b_completed :: "bson option"

record create_response =
  cr_success :: bool
  cr_message :: string
  cr_data :: todo

text \<open>The validation chains, in their order: the names of the fields that fail.\<close>

definition validate_create :: "create_body \<Rightarrow> string list" where
  "validate_create body =
     (let text = trim (case b_text body of None \<Rightarrow> [] | Some s \<Rightarrow> s)
      in (if text = [] \<or> 500 < length text then [''text''] else [])
       @ (if b_deadline body = DateMalformed then [''deadline''] else [])
       @ (case b_priority body of
            None \<Rightarrow> []
          | Some p \<Rightarrow> if p \<in> set [''low'', ''medium'', ''high''] then [] else [''priority''])
       @ (case b_category body of
            None \<Rightarrow> []
          | Some c \<Rightarrow> if 50 < length (trim c) then [''category''] else []))"

text \<open>
  The handler reads \<^verbatim>\<open>text\<close>, \<^verbatim>\<open>deadline\<close>, \<^verbatim>\<open>priority\<close> and \<^verbatim>\<open>category\<close> from
  the sanitised body and sets each optional field only when it is truthy;
  \<^verbatim>\<open>Todo.create\<close> fills in the schema's defaults, the new identifier \<open>new_id\<close> and the
  timestamps.
\<close>

definition create_todo ::
  "int \<Rightarrow> nat \<Rightarrow> todo list \<Rightarrow> nat \<Rightarrow> create_body \<Rightarrow> api_error + (todo list \<times> create_response)" where
  "create_todo now new_id store uid body =
     (if validate_create body \<noteq> [] then Inl (ValidationFailed (validate_create body))
      else
        let text = trim (case b_text body of None \<Rightarrow> [] | Some s \<Rightarrow> s);
            deadline = (case b_deadline body of DateValue d \<Rightarrow> Some d | _ \<Rightarrow> None);
            priority = (case b_priority body of
                          None \<Rightarrow> ''medium''
                        | Some p \<Rightarrow> if p = [] then ''medium'' else p);
            category = (case b_category body of
                          None \<Rightarrow> None
                        | Some c \<Rightarrow> if trim c = [] then None else Some (trim c));
            todo = \<lparr>t_id = new_id, t_user = uid, t_text = text, t_completed = False,
                    t_deadline = deadline, t_priority = priority, t_category = category,
                    t_createdAt = now, t_updatedAt = now\<rparr>
        in Inr (store @ [todo],
                \<lparr>cr_success = True, cr_message = ''Todo created successfully'',
                 cr_data = todo\<rparr>))"

subsection \<open>Listing: \<^verbatim>\<open>GET /todos\<close>\<close>

text \<open>
  The query string. \<open>page\<close> and \<open>limit\<close> are absent, a string that is not an integer,
  or an integer; the other parameters are absent or a string.
\<close>

datatype int_input = IntAbsent | IntMalformed | IntValue int

record list_query =
  q_page :: int_input
  q_limit :: int_input
  q_completed :: "string option"
  q_category :: "string option"
  q_search :: "string option"
  q_sortBy :: "string option"
  q_sortOrder :: "string option"

definition validate_list :: "list_query \<Rightarrow> string list" where
  "validate_list q =
     (case q_page q of
        IntAbsent \<Rightarrow> []
      | IntMalformed \<Rightarrow> [''page'']
      | IntValue n \<Rightarrow> if 1 \<le> n then [] else [''page''])
     @ (case q_limit q of
          IntAbsent \<Rightarrow> []
        | IntMalformed \<Rightarrow> [''limit'']
        | IntValue n \<Rightarrow> if 1 \<le> n \<and> n \<le> 100 then [] else [''limit''])
     @ (case q_completed q of
          None \<Rightarrow> []
        | Some v \<Rightarrow> if v \<in> set [''true'', ''false'', ''1'', ''0''] then [] else [''completed''])
     @ (case q_search q of
          None \<Rightarrow> []
        | Some s \<Rightarrow> if 100 < length (trim s) then [''search''] else [])
     @ (case q_sortBy q of
          None \<Rightarrow> []
        | Some v \<Rightarrow> if v \<in> set [''createdAt'', ''deadline'', ''priority'', ''text'']
                    then [] else [''sortBy''])
     @ (case q_sortOrder q of
          None \<Rightarrow> []
        | Some v \<Rightarrow> if v \<in> set [''asc'', ''desc''] then [] else [''sortOrder''])"

text \<open>
  \<^verbatim>\<open>parseInt(value) || dflt\<close>: an absent value is \<^verbatim>\<open>NaN\<close>, and 0 is falsy too. The
  arithmetic of the handler is on JavaScript numbers, which are exact for the integers up
  to \<^verbatim>\<open>Number.MAX_SAFE_INTEGER\<close> and rounded beyond it; the integers here are exact
  everywhere, so what is proved of \<open>page\<close>, \<open>limit\<close> and \<open>skip\<close> is stated for requests
  whose \<open>page * limit\<close> is at most that bound.
\<close>

definition max_safe_integer :: int where
  "max_safe_integer = 2 ^ 53 - 1"

definition int_or :: "int_input \<Rightarrow> int \<Rightarrow> int" where
  "int_or v dflt = (case v of IntValue n \<Rightarrow> if n = 0 then dflt else n | _ \<Rightarrow> dflt)"

text \<open>
  The filter object of the handler: the owner always, and one more condition for each
  of \<^verbatim>\<open>completed\<close>, \<^verbatim>\<open>category\<close> and \<^verbatim>\<open>search\<close> that the query supplies
  (\<^verbatim>\<open>category\<close> and \<^verbatim>\<open>search\<close> only when not empty; \<^verbatim>\<open>search\<close> as the validation
  chain has trimmed it). The store casts the filter through the schema, whose
  \<^verbatim>\<open>category\<close> has \<^verbatim>\<open>trim: true\<close>: the category is compared after trimming.

  The condition on the text is \<^verbatim>\<open>{$regex: search, $options: 'i'}\<close>. The operator
  belongs to the store and is a parameter, \<open>regex\<close>: for a pattern it answers the set of
  texts the pattern matches, or \<^term>\<open>None\<close> when the store refuses the pattern, and
  then the query throws.
\<close>

record todo_filter =
  f_user :: nat
  f_completed :: "bool option"
  f_category :: "string option"
  f_text :: "(string \<Rightarrow> bool) option"

definition search_pattern :: "list_query \<Rightarrow> string option" where
  "search_pattern q =
     (case q_search q of
        None \<Rightarrow> None
      | Some s \<Rightarrow> if trim s = [] then None else Some (trim s))"

definition build_filter :: "nat \<Rightarrow> list_query \<Rightarrow> (string \<Rightarrow> bool) option \<Rightarrow> todo_filter" where
  "build_filter uid q text_matches =
     \<lparr>f_user = uid,
      f_completed = (case q_completed q of None \<Rightarrow> None | Some v \<Rightarrow> Some (v = ''true'')),
      f_category = (case q_category q of
                      None \<Rightarrow> None
                    | Some c \<Rightarrow> if c = [] then None else Some (trim c)),
      f_text = text_matches\<rparr>"

definition matches :: "todo_filter \<Rightarrow> todo \<Rightarrow> bool" where
  "matches flt t =
     (t_user t = f_user flt
      \<and> (case f_completed flt of None \<Rightarrow> True | Some b \<Rightarrow> t_completed t = b)
      \<and> (case f_category flt of None \<Rightarrow> True | Some c \<Rightarrow> t_category t = Some c)
      \<and> (case f_text flt of None \<Rightarrow> True | Some text_matches \<Rightarrow> text_matches (t_text t)))"

text \<open>
  \<^verbatim>\<open>sort\<close> on one key. The store leaves the order of documents with equal keys open;
  the model keeps them in the order of the collection (an insertion sort).
\<close>

definition sort_field :: "string \<Rightarrow> todo \<Rightarrow> bson" where
  "sort_field sortBy t =
     (if sortBy = ''deadline'' then field_deadline t
      else if sortBy = ''priority'' then BString (t_priority t)
      else if sortBy = ''text'' then BString (t_text t)
      else BDate (t_createdAt t))"

definition precedes :: "string \<Rightarrow> int \<Rightarrow> todo \<Rightarrow> todo \<Rightarrow> bool" where
  "precedes sortBy sortOrder a b =
     (if sortOrder = 1 then \<not> bson_lt (sort_field sortBy b) (sort_field sortBy a)
      else \<not> bson_lt (sort_field sortBy a) (sort_field sortBy b))"

fun insert_doc :: "(todo \<Rightarrow> todo \<Rightarrow> bool) \<Rightarrow> todo \<Rightarrow> todo list \<Rightarrow> todo list" where
  "insert_doc before x [] = [x]"
| "insert_doc before x (y # ys) =
     (if before x y then x # y # ys else y # insert_doc before x ys)"

definition sort_docs :: "string \<Rightarrow> int \<Rightarrow> todo list \<Rightarrow> todo list" where
  "sort_docs sortBy sortOrder docs = foldr (insert_doc (precedes sortBy sortOrder)) docs []"

record pagination =
  p_current :: int
  p_total :: int
  p_hasNext :: bool
  p_hasPrev :: bool
  p_totalTodos :: nat

record list_response =
  lr_success :: bool
  lr_data :: "todo list"
  lr_pagination :: pagination

definition run_query :: "todo list \<Rightarrow> list_query \<Rightarrow> todo_filter \<Rightarrow> list_response" where
  "run_query store q flt =
     (let page = int_or (q_page q) 1;
          limit = int_or (q_limit q) 10;
          skip = (page - 1) * limit;
          sortBy = (case q_sortBy q of None \<Rightarrow> ''createdAt''
                    | Some v \<Rightarrow> if v = [] then ''createdAt'' else v);
          sortOrder = (if q_sortOrder q = Some ''asc'' then 1 else - 1);
          todos = take (nat limit) (drop (nat skip)
                    (sort_docs sortBy sortOrder (filter (matches flt) store)));
          total = length (filter (matches flt) store);
          totalPages = \<lceil>(of_nat total :: rat) / of_int limit\<rceil>
      in \<lparr>lr_success = True, lr_data = todos,
          lr_pagination = \<lparr>p_current = page, p_total = totalPages,
                            p_hasNext = (page < totalPages), p_hasPrev = (1 < page),
                            p_totalTodos = total\<rparr>\<rparr>)"

definition list_todos ::
  "(string \<Rightarrow> (string \<Rightarrow> bool) option) \<Rightarrow> todo list \<Rightarrow> nat \<Rightarrow> list_query \<Rightarrow>
     api_error + list_response" where
  "list_todos regex store uid q =
     (if validate_list q \<noteq> [] then Inl (ValidationFailed (validate_list q))
      else
        (case search_pattern q of
           None \<Rightarrow> Inr (run_query store q (build_filter uid q None))
         | Some pattern \<Rightarrow>
             (case regex pattern of
                None \<Rightarrow> Inl ServerError
              | Some text_matches \<Rightarrow>
                  Inr (run_query store q (build_filter uid q (Some text_matches))))))"

subsection \<open>The pattern language of the store, in part\<close>

text \<open>
  What the store's \<^verbatim>\<open>$regex\<close> with the option \<^verbatim>\<open>i\<close> does on a fragment of its pattern
  language: a pattern of the fragment is a sequence of items, each an ordinary character,
  which matches itself up to letter case, or the dot, which matches any character but a
  line feed; it matches a text when it matches at some position of it. A pattern with
  another metacharacter of the language (one of \<^verbatim>\<open>\ ^ $ | ? * + ( ) [ ] { }\<close>) is not in
  the fragment, and nothing is said of it. The table of the engine that identifies the
  two cases of a letter is a parameter, \<open>casefold\<close>.
\<close>

datatype rx_item = Lit char | AnyChar

definition regex_meta :: string where
  "regex_meta = [CHR 0x5C] @ ''^$.|?*+()[]{}''"

fun parse_regex :: "string \<Rightarrow> rx_item list option" where
  "parse_regex [] = Some []"
| "parse_regex (c # cs) =
     (case parse_regex cs of
        None \<Rightarrow> None
      | Some items \<Rightarrow>
          if c = CHR ''.'' then Some (AnyChar # items)
          else if c \<in> set regex_meta then None
          else Some (Lit c # items))"

fun item_matches :: "(char \<Rightarrow> char) \<Rightarrow> rx_item \<Rightarrow> char \<Rightarrow> bool" where
  "item_matches casefold (Lit p) c = (casefold p = casefold c)"
| "item_matches casefold AnyChar c = (c \<noteq> CHR 0x0A)"

fun match_here :: "(char \<Rightarrow> char) \<Rightarrow> rx_item list \<Rightarrow> string \<Rightarrow> bool" where
  "match_here casefold [] text = True"
| "match_here casefold (i # items) [] = False"
| "match_here casefold (i # items) (c # cs) =
     (item_matches casefold i c \<and> match_here casefold items cs)"

fun regex_search :: "(char \<Rightarrow> char) \<Rightarrow> rx_item list \<Rightarrow> string \<Rightarrow> bool" where
  "regex_search casefold items [] = match_here casefold items []"
| "regex_search casefold items (c # cs) =
     (match_here casefold items (c # cs) \<or> regex_search casefold items cs)"

text \<open>
  An operator agrees with the store on the patterns without a metacharacter when it
  accepts each of them and matches it as the sequence of its characters, as above.
\<close>

definition agrees_on_literals ::
  "(char \<Rightarrow> char) \<Rightarrow> (string \<Rightarrow> (string \<Rightarrow> bool) option) \<Rightarrow> bool" where
  "agrees_on_literals casefold regex =
     (\<forall>pattern. (\<forall>c \<in> set pattern. c \<notin> set regex_meta) \<longrightarrow>
        regex pattern = Some (regex_search casefold (map Lit pattern)))"

text \<open>
  For concrete requests: the folding of the ASCII letters, and the operator that knows
  the fragment only.
\<close>

definition ascii_lower :: "char \<Rightarrow> char" where
  "ascii_lower c =
     (if 65 \<le> (of_char c :: nat) \<and> (of_char c :: nat) \<le> 90
      then char_of ((of_char c :: nat) + 32) else c)"

definition fragment_regex :: "(char \<Rightarrow> char) \<Rightarrow> string \<Rightarrow> (string \<Rightarrow> bool) option" where
  "fragment_regex casefold pattern =
     (case parse_regex pattern of
        None \<Rightarrow> None
      | Some items \<Rightarrow> Some (regex_search casefold items))"

subsection \<open>The filters in the words of the specification\<close>

text \<open>
  The text contains the search string as a substring, letter case aside.
\<close>

definition contains_ci :: "(char \<Rightarrow> char) \<Rightarrow> string \<Rightarrow> string \<Rightarrow> bool" where
  "contains_ci casefold needle text =
     (\<exists>before after. map casefold text = before @ map casefold needle @ after)"

text \<open>
  The completed parameter is a Boolean: of the four values that pass the validation,
  \<open>true\<close> and \<open>1\<close> are true, \<open>false\<close> and \<open>0\<close> are false.
\<close>

definition spec_flag :: "string \<Rightarrow> bool" where
  "spec_flag v = (v = ''true'' \<or> v = ''1'')"

text \<open>
  A task is selected when it is the owner's, has the requested completed flag and
  exactly the requested category, when there is one, and contains the search string.
\<close>

definition spec_selected ::
  "(char \<Rightarrow> char) \<Rightarrow> nat \<Rightarrow> bool option \<Rightarrow> string option \<Rightarrow> string \<Rightarrow> todo \<Rightarrow> bool" where
  "spec_selected casefold uid completed category search t =
     (t_user t = uid
      \<and> (case completed of None \<Rightarrow> True | Some flag \<Rightarrow> t_completed t = flag)
      \<and> (case category of None \<Rightarrow> True | Some c \<Rightarrow> t_category t = Some c)
      \<and> contains_ci casefold search (t_text t))"

section \<open>Properties of the deadline classifier\<close>

lemma ceiling_days_le: "(\<lceil>(of_int x :: rat) / 86400000\<rceil> \<le> n) = (x \<le> n * 86400000)"
proof -
  have "(\<lceil>(of_int x :: rat) / 86400000\<rceil> \<le> n) = ((of_int x :: rat) / 86400000 \<le> of_int n)"
    by (rule ceiling_le_iff)
  also have "\<dots> = ((of_int x :: rat) \<le> of_int n * 86400000)"
    by (simp add: divide_le_eq)
  also have "\<dots> = ((of_int x :: rat) \<le> of_int (n * 86400000))"
    by simp
  also have "\<dots> = (x \<le> n * 86400000)"
    by (rule of_int_le_iff)
  finally show ?thesis .
qed

lemma hours_le: "((of_int x :: rat) / 3600000 \<le> 24) = (x \<le> 86400000)"
proof -
  have "((of_int x :: rat) / 3600000 \<le> 24) = ((of_int x :: rat) \<le> of_int 86400000)"
    by (simp add: divide_le_eq)
  also have "\<dots> = (x \<le> 86400000)"
    by (rule of_int_le_iff)
  finally show ?thesis .
qed

lemma getDeadlineStatus_int:
  "getDeadlineStatus now (Some d) False =
     (if d - now < 0 then Overdue
      else if d - now \<le> 86400000 then Today
      else if d - now \<le> 3 * 86400000 then Soon
      else Normal)"
  by (simp add: getDeadlineStatus_def Let_def ceiling_days_le hours_le)

text \<open>
  C4. The classifier is a total function of \<open>now\<close>, the deadline and the completed flag,
  with values in the five-element type \<^typ>\<open>deadline_status\<close>. No deadline gives
  \<open>none\<close>, a completed task gives \<open>none\<close> whatever its deadline, and for each of the
  five values the inputs that produce it are exactly: \<open>none\<close> when there is no deadline
  or the task is completed; \<open>overdue\<close> when the deadline is strictly before now and the
  task is not completed; \<open>today\<close> when the time remaining is at least 0 and at most 24
  hours; \<open>soon\<close> when the remaining time is more than 24 hours and its number of days,
  rounded up, is at most 3; \<open>normal\<close> when it is further out.
\<close>

theorem getDeadlineStatus_classifies:
  "getDeadlineStatus now None completed = StatusNone
   \<and> getDeadlineStatus now deadline True = StatusNone
   \<and> (getDeadlineStatus now deadline completed = StatusNone) =
       (deadline = None \<or> completed)
   \<and> (getDeadlineStatus now deadline completed = Overdue) =
       (\<exists>d. deadline = Some d \<and> d < now \<and> \<not> completed)
   \<and> (getDeadlineStatus now deadline completed = Today) =
       (\<exists>d. deadline = Some d \<and> \<not> completed \<and> 0 \<le> d - now \<and> d - now \<le> 24 * 3600000)
   \<and> (getDeadlineStatus now deadline completed = Soon) =
       (\<exists>d. deadline = Some d \<and> \<not> completed \<and> 24 * 3600000 < d - now
            \<and> \<lceil>(of_int (d - now) :: rat) / (24 * 3600000)\<rceil> \<le> 3)
   \<and> (getDeadlineStatus now deadline completed = Normal) =
       (\<exists>d. deadline = Some d \<and> \<not> completed \<and> 24 * 3600000 < d - now
            \<and> 3 < \<lceil>(of_int (d - now) :: rat) / (24 * 3600000)\<rceil>)"
proof -
  have none: "getDeadlineStatus now None completed = StatusNone"
    by (simp add: getDeadlineStatus_def)
  have fin: "getDeadlineStatus now deadline True = StatusNone"
    by (cases deadline) (simp_all add: getDeadlineStatus_def)
  have rest:
    "(getDeadlineStatus now deadline completed = StatusNone) = (deadline = None \<or> completed)
     \<and> (getDeadlineStatus now deadline completed = Overdue) =
         (\<exists>d. deadline = Some d \<and> d < now \<and> \<not> completed)
     \<and> (getDeadlineStatus now deadline completed = Today) =
         (\<exists>d. deadline = Some d \<and> \<not> completed \<and> 0 \<le> d - now \<and> d - now \<le> 86400000)
     \<and> (getDeadlineStatus now deadline completed = Soon) =
         (\<exists>d. deadline = Some d \<and> \<not> completed \<and> 86400000 < d - now
              \<and> d - now \<le> 3 * 86400000)
     \<and> (getDeadlineStatus now deadline completed = Normal) =
         (\<exists>d. deadline = Some d \<and> \<not> completed \<and> 86400000 < d - now
              \<and> 3 * 86400000 < d - now)"
  proof (cases deadline)
    case None
    then show ?thesis by (simp add: none)
  next
    case (Some d)
    show ?thesis
    proof (cases completed)
      case True
      with Some fin show ?thesis by simp
    next
      case False
      with Some show ?thesis
        by (auto simp add: getDeadlineStatus_int split: if_splits)
    qed
  qed
  have c: "(24 * 3600000 :: rat) = 86400000"
    by simp
  have days: "(\<lceil>(of_int (d - now) :: rat) / (24 * 3600000)\<rceil> \<le> 3) = (d - now \<le> 3 * 86400000)"
    for d
    unfolding c by (rule ceiling_days_le)
  have days': "(3 < \<lceil>(of_int (d - now) :: rat) / (24 * 3600000)\<rceil>) = (3 * 86400000 < d - now)"
    for d
    using days [of d] by linarith
  have hours: "(24 * 3600000 :: int) = 86400000"
    by simp
  show ?thesis
    unfolding days days' hours using none fin rest by blast
qed

text \<open>
  C5. At one instant \<open>now\<close>, the is-overdue predicate together with not-completed holds
  exactly when the classifier answers \<open>overdue\<close>: the deadline is present, strictly
  before now, and the task is not completed.
\<close>

theorem isOverdue_agrees_with_classifier:
  "(isOverdue now deadline \<and> \<not> completed) = (getDeadlineStatus now deadline completed = Overdue)
   \<and> (isOverdue now deadline \<and> \<not> completed) = (\<exists>d. deadline = Some d \<and> d < now \<and> \<not> completed)"
proof (cases deadline)
  case None
  then show ?thesis by (simp add: isOverdue_def getDeadlineStatus_def)
next
  case (Some d)
  show ?thesis
  proof (cases completed)
    case True
    with Some show ?thesis by (simp add: isOverdue_def getDeadlineStatus_def)
  next
    case False
    with Some show ?thesis by (simp add: isOverdue_def getDeadlineStatus_int)
  qed
qed

section \<open>Properties of editing\<close>

text \<open>
  With an edit text that trims to the empty string, the offline \<^verbatim>\<open>App\<close> leaves
  the tasks as they are and closes the edit session, whatever the state.
\<close>

lemma saveEdit_blank:
  "trim (a_editText s) = [] \<Longrightarrow>
   saveEdit parseDate s =
     Inr (s\<lparr>a_editingId := None, a_editText := [], a_editDeadline := [], a_editTime := []\<rparr>)"
  by (simp add: saveEdit_def)

text \<open>
  On the same input \<^verbatim>\<open>TodoApp\<close> does nothing at all: the tasks are unchanged, and so
  is the edit session.
\<close>

lemma saveEdit_remote_blank:
  "trim (c_editText s) = [] \<Longrightarrow> saveEdit_remote parseDate api_put s = s"
  by (simp add: saveEdit_remote_def)

lemma saveEdit_blank_example:
  "saveEdit (\<lambda>s. None)
     \<lparr>a_todos = [\<lparr>l_id = 1, l_text = ''Buy milk'', l_completed = False,
                   l_deadline = None, l_createdAt = 1699999000000\<rparr>],
      a_newTodo = [], a_newDeadline = [], a_newTime = [], a_filter = ''all'',
      a_editingId = Some 1, a_editText = ''   '', a_editDeadline = [], a_editTime = [],
      a_sortBy = ''created''\<rparr>
   = Inr \<lparr>a_todos = [\<lparr>l_id = 1, l_text = ''Buy milk'', l_completed = False,
                   l_deadline = None, l_createdAt = 1699999000000\<rparr>],
      a_newTodo = [], a_newDeadline = [], a_newTime = [], a_filter = ''all'',
      a_editingId = None, a_editText = [], a_editDeadline = [], a_editTime = [],
      a_sortBy = ''created''\<rparr>"
  by (simp add: saveEdit_def trim_def is_space_def)

text \<open>
  C3. Saving with an edit text that trims to the empty string leaves the task unchanged
  and exits edit mode, in both variants of the client. \<^verbatim>\<open>TodoApp\<close> does not exit
  edit mode: with task 1 in the editing state and three spaces as the edit text, the
  state after \<^verbatim>\<open>saveEdit\<close> is the state before it, and task 1 is still being edited.
\<close>

theorem saveEdit_remote_blank_stays_editing:
  "saveEdit_remote (\<lambda>s. None) (\<lambda>i u. None)
     \<lparr>c_todos = [\<lparr>t_id = 1, t_user = 7, t_text = ''Buy milk'', t_completed = False,
                   t_deadline = None, t_priority = ''medium'', t_category = None,
                   t_createdAt = 1699999000000, t_updatedAt = 1699999000000\<rparr>],
      c_newTodo = [], c_newDeadline = [], c_newTime = [], c_filter = ''all'',
      c_editingId = Some 1, c_editText = ''   '', c_editDeadline = [], c_editTime = [],
      c_sortBy = ''created'', c_loading = False, c_error = []\<rparr>
   = \<lparr>c_todos = [\<lparr>t_id = 1, t_user = 7, t_text = ''Buy milk'', t_completed = False,
                   t_deadline = None, t_priority = ''medium'', t_category = None,
                   t_createdAt = 1699999000000, t_updatedAt = 1699999000000\<rparr>],
      c_newTodo = [], c_newDeadline = [], c_newTime = [], c_filter = ''all'',
      c_editingId = Some 1, c_editText = ''   '', c_editDeadline = [], c_editTime = [],
      c_sortBy = ''created'', c_loading = False, c_error = []\<rparr>"
  by (simp add: saveEdit_remote_def trim_def is_space_def)

section \<open>Properties of the statistics\<close>

lemma deadline_lt_now:
  "bson_lt (field_deadline t) (BDate now) =
     (case t_deadline t of None \<Rightarrow> True | Some d \<Rightarrow> d < now)"
  by (simp add: field_deadline_def split: option.split)

lemma foldl_group_step:
  "foldl (group_step now) acc ts =
     \<lparr>s_total = s_total acc + length ts,
      s_completed = s_completed acc + length (filter t_completed ts),
      s_pending = s_pending acc + length (filter (\<lambda>t. \<not> t_completed t) ts),
      s_overdue = s_overdue acc +
        length (filter (\<lambda>t. \<not> t_completed t \<and>
                             (case t_deadline t of None \<Rightarrow> True | Some d \<Rightarrow> d < now)) ts)\<rparr>"
proof (induction ts arbitrary: acc)
  case Nil
  show ?case by simp
next
  case (Cons t ts)
  show ?case
    apply (simp only: foldl_Cons Cons.IH)
    apply (simp add: group_step_def field_completed_def deadline_lt_now)
    done
qed

lemma stats_summary_counts:
  "stats_summary now store uid =
     \<lparr>sr_success = True,
      sr_data =
        \<lparr>s_total = length (filter (\<lambda>t. t_user t = uid) store),
         s_completed = length (filter t_completed (filter (\<lambda>t. t_user t = uid) store)),
         s_pending = length (filter (\<lambda>t. \<not> t_completed t) (filter (\<lambda>t. t_user t = uid) store)),
         s_overdue =
           length (filter (\<lambda>t. \<not> t_completed t \<and>
                                (case t_deadline t of None \<Rightarrow> True | Some d \<Rightarrow> d < now))
                     (filter (\<lambda>t. t_user t = uid) store))\<rparr>\<rparr>"
proof -
  have agg: "aggregate_stats now store uid =
      (if filter (\<lambda>t. t_user t = uid) store = [] then []
       else [foldl (group_step now)
               \<lparr>s_total = 0, s_completed = 0, s_pending = 0, s_overdue = 0\<rparr>
               (filter (\<lambda>t. t_user t = uid) store)])"
    by (simp add: aggregate_stats_def split: list.split)
  show ?thesis
    unfolding stats_summary_def agg foldl_group_step by (auto simp add: filter_empty_conv)
qed

lemma length_filter_split:
  "length xs = length (filter P xs) + length (filter (\<lambda>x. \<not> P x) xs)"
  by (induction xs) simp_all

lemma length_filter_conj_le:
  "length (filter (\<lambda>x. P x \<and> Q x) xs) \<le> length (filter P xs)"
  by (induction xs) simp_all

text \<open>
  C8. For every owner and every collection, the statistics satisfy
  \<open>total = completed + pending\<close> and \<open>overdue \<le> pending\<close>, where \<open>total\<close> counts the
  owner's tasks, \<open>completed\<close> those with \<open>completed = true\<close> and \<open>pending\<close> those with
  \<open>completed = false\<close>.
\<close>

theorem stats_summary_invariant:
  "s_total (sr_data (stats_summary now store uid)) =
     s_completed (sr_data (stats_summary now store uid))
     + s_pending (sr_data (stats_summary now store uid))
   \<and> s_overdue (sr_data (stats_summary now store uid))
       \<le> s_pending (sr_data (stats_summary now store uid))
   \<and> s_total (sr_data (stats_summary now store uid)) =
       length (filter (\<lambda>t. t_user t = uid) store)
   \<and> s_completed (sr_data (stats_summary now store uid)) =
       length (filter (\<lambda>t. t_user t = uid \<and> t_completed t = True) store)
   \<and> s_pending (sr_data (stats_summary now store uid)) =
       length (filter (\<lambda>t. t_user t = uid \<and> t_completed t = False) store)"
proof -
  let ?own = "filter (\<lambda>t. t_user t = uid) store"
  have split: "length ?own = length (filter t_completed ?own)
                 + length (filter (\<lambda>t. \<not> t_completed t) ?own)"
    by (rule length_filter_split)
  have le: "length (filter (\<lambda>t. \<not> t_completed t \<and>
                (case t_deadline t of None \<Rightarrow> True | Some d \<Rightarrow> d < now)) ?own)
            \<le> length (filter (\<lambda>t. \<not> t_completed t) ?own)"
    by (rule length_filter_conj_le)
  show ?thesis
    unfolding stats_summary_counts using split le by simp
qed

text \<open>
  C1. The statistics count as overdue the owner's tasks that are not completed, have a
  deadline, and whose deadline is strictly before now; for one task with no deadline and
  one not-completed task with a past deadline they are total 2, completed 0, pending 2,
  overdue 1. The handler answers overdue 2 on that scenario: \<^verbatim>\<open>$lt\<close> compares the
  \<^verbatim>\<open>null\<close> deadline of the first task with a date, and null is below every date.
\<close>

theorem stats_summary_no_deadline_counted_overdue:
  "stats_summary 1700000000000
     [\<lparr>t_id = 1, t_user = 7, t_text = ''Buy milk'', t_completed = False,
       t_deadline = None, t_priority = ''medium'', t_category = None,
       t_createdAt = 1699999000000, t_updatedAt = 1699999000000\<rparr>,
      \<lparr>t_id = 2, t_user = 7, t_text = ''File taxes'', t_completed = False,
       t_deadline = Some 1699913600000, t_priority = ''medium'', t_category = None,
       t_createdAt = 1699999000001, t_updatedAt = 1699999000001\<rparr>] 7
   = \<lparr>sr_success = True,
      sr_data = \<lparr>s_total = 2, s_completed = 0, s_pending = 2, s_overdue = 2\<rparr>\<rparr>"
  by (simp add: stats_summary_def aggregate_stats_def group_step_def field_completed_def
        field_deadline_def)

text \<open>
  C9. When the owner has no task, the aggregation yields no group and the handler
  answers \<open>success = true\<close> with the explicit zeros for total, completed, pending and
  overdue.
\<close>

theorem stats_summary_no_tasks:
  "\<forall>t \<in> set store. t_user t \<noteq> uid \<Longrightarrow>
   aggregate_stats now store uid = []
   \<and> stats_summary now store uid =
       \<lparr>sr_success = True,
        sr_data = \<lparr>s_total = 0, s_completed = 0, s_pending = 0, s_overdue = 0\<rparr>\<rparr>"
proof -
  assume "\<forall>t \<in> set store. t_user t \<noteq> uid"
  then have "filter (\<lambda>t. t_user t = uid) store = []"
    by (simp add: filter_empty_conv)
  then show ?thesis
    by (simp add: stats_summary_def aggregate_stats_def)
qed

theorem stats_summary_no_tasks_witness:
  "aggregate_stats 1700000000000
     [\<lparr>t_id = 1, t_user = 8, t_text = ''Buy milk'', t_completed = False,
       t_deadline = None, t_priority = ''medium'', t_category = None,
       t_createdAt = 1699999000000, t_updatedAt = 1699999000000\<rparr>] 7 = []
   \<and> stats_summary 1700000000000
     [\<lparr>t_id = 1, t_user = 8, t_text = ''Buy milk'', t_completed = False,
       t_deadline = None, t_priority = ''medium'', t_category = None,
       t_createdAt = 1699999000000, t_updatedAt = 1699999000000\<rparr>] 7 =
       \<lparr>sr_success = True,
        sr_data = \<lparr>s_total = 0, s_completed = 0, s_pending = 0, s_overdue = 0\<rparr>\<rparr>"
  by (rule stats_summary_no_tasks) simp

section \<open>Properties of the bulk actions\<close>

lemma bulk_delete_all:
  "bulk now store uid ''delete-all'' =
     Inr (filter (\<lambda>t. t_user t \<noteq> uid) store,
          \<lparr>br_success = True, br_message = ''Bulk delete-all completed successfully'',
           br_modifiedCount = length (filter (\<lambda>t. t_user t = uid) store)\<rparr>)"
  by (simp add: bulk_def deleteMany_def js_or_def)

lemma bulk_complete_all:
  "bulk now store uid ''complete-all'' =
     Inr (map (\<lambda>t. if t_user t = uid \<and> \<not> t_completed t
                    then t\<lparr>t_completed := True, t_updatedAt := now\<rparr> else t) store,
          \<lparr>br_success = True, br_message = ''Bulk complete-all completed successfully'',
           br_modifiedCount = length (filter (\<lambda>t. t_user t = uid \<and> \<not> t_completed t) store)\<rparr>)"
  by (simp add: bulk_def updateMany_completed_def js_or_def)

lemma length_filter_pos: "\<exists>x \<in> set xs. P x \<Longrightarrow> 0 < length (filter P xs)"
  by (induction xs) auto

lemma none_pending_after_complete:
  "filter (\<lambda>t. t_user t = uid \<and> \<not> t_completed t)
     (map (\<lambda>t. if t_user t = uid \<and> \<not> t_completed t
                then t\<lparr>t_completed := True, t_updatedAt := now\<rparr> else t) store) = []"
  by (induction store) simp_all

lemma complete_all_fixpoint:
  "\<forall>t \<in> set store. \<not> (t_user t = uid \<and> \<not> t_completed t) \<Longrightarrow>
   map (\<lambda>t. if t_user t = uid \<and> \<not> t_completed t
             then t\<lparr>t_completed := True, t_updatedAt := now\<rparr> else t) store = store"
  by (induction store) auto

text \<open>
  C6. For an owner with at least one task, \<open>delete-all\<close> twice in a row affects more
  than zero tasks, then zero, and no task of the owner remains; for an owner with at least
  one not-completed task, \<open>complete-all\<close> twice affects more than zero tasks (exactly the
  not-completed ones), then zero. Both times the second call leaves the store as the
  first one left it.
\<close>

theorem bulk_twice:
  "((\<exists>t \<in> set store. t_user t = uid) \<longrightarrow>
      (\<exists>s1 r1 r2.
          bulk now store uid ''delete-all'' = Inr (s1, r1)
        \<and> bulk now' s1 uid ''delete-all'' = Inr (s1, r2)
        \<and> 0 < br_modifiedCount r1 \<and> br_modifiedCount r2 = 0
        \<and> filter (\<lambda>t. t_user t = uid) s1 = []))
   \<and> ((\<exists>t \<in> set store. t_user t = uid \<and> \<not> t_completed t) \<longrightarrow>
      (\<exists>s1 r1 r2.
          bulk now store uid ''complete-all'' = Inr (s1, r1)
        \<and> bulk now' s1 uid ''complete-all'' = Inr (s1, r2)
        \<and> 0 < br_modifiedCount r1 \<and> br_modifiedCount r2 = 0
        \<and> br_modifiedCount r1 = length (filter (\<lambda>t. t_user t = uid \<and> \<not> t_completed t) store)
        \<and> filter (\<lambda>t. t_user t = uid \<and> \<not> t_completed t) s1 = []))"
proof (intro conjI impI)
  assume own: "\<exists>t \<in> set store. t_user t = uid"
  let ?s1 = "filter (\<lambda>t. t_user t \<noteq> uid) store"
  have gone: "filter (\<lambda>t. t_user t = uid) ?s1 = []"
    by (simp add: filter_empty_conv)
  have same: "filter (\<lambda>t. t_user t \<noteq> uid) ?s1 = ?s1"
    by simp
  have pos: "0 < length (filter (\<lambda>t. t_user t = uid) store)"
    using own by (rule length_filter_pos)
  show "\<exists>s1 r1 r2.
          bulk now store uid ''delete-all'' = Inr (s1, r1)
        \<and> bulk now' s1 uid ''delete-all'' = Inr (s1, r2)
        \<and> 0 < br_modifiedCount r1 \<and> br_modifiedCount r2 = 0
        \<and> filter (\<lambda>t. t_user t = uid) s1 = []"
    unfolding bulk_delete_all using gone same pos by simp
next
  assume pend: "\<exists>t \<in> set store. t_user t = uid \<and> \<not> t_completed t"
  let ?s1 = "map (\<lambda>t. if t_user t = uid \<and> \<not> t_completed t
                       then t\<lparr>t_completed := True, t_updatedAt := now\<rparr> else t) store"
  have gone: "filter (\<lambda>t. t_user t = uid \<and> \<not> t_completed t) ?s1 = []"
    by (rule none_pending_after_complete)
  then have "\<forall>t \<in> set ?s1. \<not> (t_user t = uid \<and> \<not> t_completed t)"
    by (simp only: filter_empty_conv)
  then have same: "map (\<lambda>t. if t_user t = uid \<and> \<not> t_completed t
                       then t\<lparr>t_completed := True, t_updatedAt := now'\<rparr> else t) ?s1 = ?s1"
    by (rule complete_all_fixpoint)
  have pos: "0 < length (filter (\<lambda>t. t_user t = uid \<and> \<not> t_completed t) store)"
    using pend by (rule length_filter_pos)
  show "\<exists>s1 r1 r2.
          bulk now store uid ''complete-all'' = Inr (s1, r1)
        \<and> bulk now' s1 uid ''complete-all'' = Inr (s1, r2)
        \<and> 0 < br_modifiedCount r1 \<and> br_modifiedCount r2 = 0
        \<and> br_modifiedCount r1 = length (filter (\<lambda>t. t_user t = uid \<and> \<not> t_completed t) store)
        \<and> filter (\<lambda>t. t_user t = uid \<and> \<not> t_completed t) s1 = []"
    unfolding bulk_complete_all using gone same pos by simp
qed

theorem bulk_twice_witness:
  "(\<exists>s1 r1 r2.
      bulk 1700000000000
        [\<lparr>t_id = 1, t_user = 7, t_text = ''Buy milk'', t_completed = True,
          t_deadline = None, t_priority = ''medium'', t_category = None,
          t_createdAt = 1699999000000, t_updatedAt = 1699999000000\<rparr>,
         \<lparr>t_id = 2, t_user = 7, t_text = ''File taxes'', t_completed = False,
          t_deadline = None, t_priority = ''medium'', t_category = None,
          t_createdAt = 1699999000001, t_updatedAt = 1699999000001\<rparr>] 7 ''delete-all''
        = Inr (s1, r1)
    \<and> bulk 1700000000500 s1 7 ''delete-all'' = Inr (s1, r2)
    \<and> 0 < br_modifiedCount r1 \<and> br_modifiedCount r2 = 0
    \<and> filter (\<lambda>t. t_user t = 7) s1 = [])
   \<and> (\<exists>s1 r1 r2.
      bulk 1700000000000
        [\<lparr>t_id = 1, t_user = 7, t_text = ''Buy milk'', t_completed = True,
          t_deadline = None, t_priority = ''medium'', t_category = None,
          t_createdAt = 1699999000000, t_updatedAt = 1699999000000\<rparr>,
         \<lparr>t_id = 2, t_user = 7, t_text = ''File taxes'', t_completed = False,
          t_deadline = None, t_priority = ''medium'', t_category = None,
          t_createdAt = 1699999000001, t_updatedAt = 1699999000001\<rparr>] 7 ''complete-all''
        = Inr (s1, r1)
    \<and> bulk 1700000000500 s1 7 ''complete-all'' = Inr (s1, r2)
    \<and> 0 < br_modifiedCount r1 \<and> br_modifiedCount r2 = 0
    \<and> br_modifiedCount r1 = 1)"
proof -
  let ?store =
    "[\<lparr>t_id = 1, t_user = 7, t_text = ''Buy milk'', t_completed = True,
          t_deadline = None, t_priority = ''medium'', t_category = None,
          t_createdAt = 1699999000000, t_updatedAt = 1699999000000\<rparr>,
         \<lparr>t_id = 2, t_user = 7, t_text = ''File taxes'', t_completed = False,
          t_deadline = None, t_priority = ''medium'', t_category = None,
          t_createdAt = 1699999000001, t_updatedAt = 1699999000001\<rparr>]"
  have own: "\<exists>t \<in> set ?store. t_user t = 7"
    by simp
  have pend: "\<exists>t \<in> set ?store. t_user t = 7 \<and> \<not> t_completed t"
    by simp
  have n: "length (filter (\<lambda>t. t_user t = 7 \<and> \<not> t_completed t) ?store) = 1"
    by simp
  from bulk_twice [where store = ?store and uid = 7 and now = 1700000000000
      and now' = 1700000000500] own pend
  show ?thesis
    unfolding n by blast
qed

section \<open>Properties of the creation\<close>

lemma validate_create_completed:
  "validate_create (body\<lparr>b_completed := c\<rparr>) = validate_create body"
  by (simp add: validate_create_def)

lemma create_todo_valid:
  "validate_create body = [] \<Longrightarrow>
   \<exists>created. create_todo now new_id store uid body =
       Inr (store @ [created],
            \<lparr>cr_success = True, cr_message = ''Todo created successfully'',
             cr_data = created\<rparr>)
     \<and> t_completed created = False \<and> t_id created = new_id \<and> t_user created = uid"
  by (simp add: create_todo_def Let_def)

lemma create_todo_invalid:
  "validate_create body \<noteq> [] \<Longrightarrow>
   create_todo now new_id store uid body = Inl (ValidationFailed (validate_create body))"
  by (simp add: create_todo_def)

text \<open>
  C10. Creation ignores a \<open>completed\<close> value in the request body: the outcome is the same
  whatever the body holds under that key, a valid body creates a task, and every created
  task has \<open>completed = false\<close>.
\<close>

theorem create_todo_ignores_completed:
  "create_todo now new_id store uid (body\<lparr>b_completed := c\<rparr>) =
     create_todo now new_id store uid body
   \<and> (validate_create body = [] \<longrightarrow>
        (\<exists>created. create_todo now new_id store uid (body\<lparr>b_completed := c\<rparr>) =
             Inr (store @ [created],
                  \<lparr>cr_success = True, cr_message = ''Todo created successfully'',
                   cr_data = created\<rparr>)
           \<and> t_completed created = False))
   \<and> (\<forall>store' resp. create_todo now new_id store uid (body\<lparr>b_completed := c\<rparr>) = Inr (store', resp)
        \<longrightarrow> t_completed (cr_data resp) = False \<and> store' = store @ [cr_data resp])"
proof (intro conjI impI allI)
  let ?body = "body\<lparr>b_completed := c\<rparr>"
  show "create_todo now new_id store uid ?body = create_todo now new_id store uid body"
    by (simp add: create_todo_def validate_create_completed)
  show "\<exists>created. create_todo now new_id store uid ?body =
             Inr (store @ [created],
                  \<lparr>cr_success = True, cr_message = ''Todo created successfully'',
                   cr_data = created\<rparr>)
           \<and> t_completed created = False"
    if "validate_create body = []"
  proof -
    from that have "validate_create ?body = []"
      by (simp only: validate_create_completed)
    from create_todo_valid [OF this] show ?thesis
      by blast
  qed
  fix store' resp
  assume r: "create_todo now new_id store uid ?body = Inr (store', resp)"
  have valid: "validate_create ?body = []"
  proof (rule ccontr)
    assume "validate_create ?body \<noteq> []"
    from create_todo_invalid [OF this] r show False
      by simp
  qed
  from create_todo_valid [OF valid, of now new_id store uid] r
  show "t_completed (cr_data resp) = False" and "store' = store @ [cr_data resp]"
    by auto
qed

theorem create_todo_ignores_completed_witness:
  "validate_create
     \<lparr>b_text = Some '' Buy milk '', b_deadline = DateAbsent, b_priority = None,
      b_category = None, b_completed = None\<rparr> = []
   \<and> (\<exists>created.
        create_todo 1700000000000 3 [] 7
          \<lparr>b_text = Some '' Buy milk '', b_deadline = DateAbsent, b_priority = None,
           b_category = None, b_completed = Some (BBool True)\<rparr> =
          Inr ([created],
               \<lparr>cr_success = True, cr_message = ''Todo created successfully'',
                cr_data = created\<rparr>)
      \<and> t_completed created = False)"
proof -
  let ?body = "\<lparr>b_text = Some '' Buy milk '', b_deadline = DateAbsent, b_priority = None,
      b_category = None, b_completed = None\<rparr>"
  have tr: "trim '' Buy milk '' = ''Buy milk''"
    by (simp add: trim_def is_space_def)
  have valid: "validate_create ?body = []"
    by (simp add: validate_create_def tr)
  from create_todo_ignores_completed [where now = 1700000000000 and new_id = 3 and store = "[]"
      and uid = 7 and body = ?body and c = "Some (BBool True)"] valid
  obtain created where
    c: "create_todo 1700000000000 3 [] 7 (?body\<lparr>b_completed := Some (BBool True)\<rparr>) =
          Inr ([] @ [created],
               \<lparr>cr_success = True, cr_message = ''Todo created successfully'',
                cr_data = created\<rparr>)"
    and f: "t_completed created = False"
    by blast
  from c f valid show ?thesis
    by auto
qed

section \<open>Properties of the listing\<close>

subsection \<open>The order of the store is a strict total order\<close>

lemma string_less_irrefl: "\<not> string_less s s"
  by (induction s) simp_all

lemma string_less_trans:
  "string_less a b \<Longrightarrow> string_less b c \<Longrightarrow> string_less a c"
proof (induction a b arbitrary: c rule: string_less.induct)
  case 1
  then show ?case by simp
next
  case (2 y ys)
  then show ?case by (cases c) simp_all
next
  case (3 x xs)
  then show ?case by simp
next
  case (4 x xs y ys)
  show ?case
  proof (cases c)
    case Nil
    with "4.prems" show ?thesis by simp
  next
    case (Cons z zs)
    with "4.prems" "4.IH" [of zs] show ?thesis
      by (auto split: if_splits)
  qed
qed

lemma string_less_total: "string_less a b \<or> a = b \<or> string_less b a"
proof (induction a b rule: string_less.induct)
  case (4 x xs y ys)
  have "(of_char x :: nat) < of_char y \<or> x = y \<or> (of_char y :: nat) < of_char x"
    using of_char_eq_iff [of x y, where ?'a = nat] by linarith
  with 4 show ?case
    by auto
qed simp_all

lemma bson_lt_irrefl: "\<not> bson_lt a a"
  by (cases a) (simp_all add: string_less_irrefl)

lemma bson_lt_trans: "bson_lt a b \<Longrightarrow> bson_lt b c \<Longrightarrow> bson_lt a c"
  by (cases a; cases b; cases c) (auto intro: string_less_trans)

lemma bson_lt_total: "bson_lt a b \<or> a = b \<or> bson_lt b a"
  using string_less_total by (cases a; cases b) auto

lemma precedes_total: "precedes sortBy sortOrder a b \<or> precedes sortBy sortOrder b a"
  unfolding precedes_def using bson_lt_trans bson_lt_irrefl by (cases "sortOrder = 1") auto

lemma not_lt_trans:
  assumes "\<not> bson_lt b a" and "\<not> bson_lt c b"
  shows "\<not> bson_lt c a"
proof
  assume ca: "bson_lt c a"
  from bson_lt_total [of a b] assms(1) have "bson_lt a b \<or> a = b"
    by blast
  then have "bson_lt c b"
    using ca bson_lt_trans by blast
  with assms(2) show False ..
qed

lemma precedes_trans:
  "precedes sortBy sortOrder a b \<Longrightarrow> precedes sortBy sortOrder b c \<Longrightarrow>
   precedes sortBy sortOrder a c"
  unfolding precedes_def using not_lt_trans by (cases "sortOrder = 1") auto

lemma set_insert_doc: "set (insert_doc before x ys) = insert x (set ys)"
  by (induction ys) auto

lemma sorted_insert_doc:
  assumes total: "\<And>a b. before a b \<or> before b a"
    and trans: "\<And>a b c. before a b \<Longrightarrow> before b c \<Longrightarrow> before a c"
  shows "sorted_wrt before ys \<Longrightarrow> sorted_wrt before (insert_doc before x ys)"
proof (induction ys)
  case Nil
  show ?case by simp
next
  case (Cons y ys)
  show ?case
  proof (cases "before x y")
    case True
    with Cons.prems trans show ?thesis
      by auto
  next
    case False
    with total have "before y x"
      by blast
    with False Cons show ?thesis
      by (auto simp add: set_insert_doc)
  qed
qed

lemma sorted_sort_docs:
  "sorted_wrt (precedes sortBy sortOrder) (sort_docs sortBy sortOrder docs)"
  unfolding sort_docs_def
proof (induction docs)
  case Nil
  show ?case by simp
next
  case (Cons d docs)
  have "sorted_wrt (precedes sortBy sortOrder)
          (insert_doc (precedes sortBy sortOrder) d
             (foldr (insert_doc (precedes sortBy sortOrder)) docs []))"
    using precedes_total precedes_trans Cons.IH by (rule sorted_insert_doc)
  then show ?case
    by simp
qed

lemma mset_insert_doc: "mset (insert_doc before x ys) = add_mset x (mset ys)"
  by (induction ys) simp_all

lemma mset_sort_docs: "mset (sort_docs sortBy sortOrder docs) = mset docs"
  unfolding sort_docs_def by (induction docs) (simp_all add: mset_insert_doc)

lemma length_sort_docs: "length (sort_docs sortBy sortOrder docs) = length docs"
  using mset_sort_docs [of sortBy sortOrder docs] by (metis size_mset)

subsection \<open>What the handler computes\<close>

lemma validate_list_page:
  "validate_list q = [] \<Longrightarrow>
   int_or (q_page q) 1 = (case q_page q of IntValue n \<Rightarrow> n | _ \<Rightarrow> 1)
   \<and> 1 \<le> int_or (q_page q) 1"
  by (cases "q_page q") (simp_all add: validate_list_def int_or_def split: if_splits)

lemma validate_list_limit:
  "validate_list q = [] \<Longrightarrow>
   int_or (q_limit q) 10 = (case q_limit q of IntValue n \<Rightarrow> n | _ \<Rightarrow> 10)
   \<and> 1 \<le> int_or (q_limit q) 10 \<and> int_or (q_limit q) 10 \<le> 100"
  by (cases "q_limit q") (simp_all add: validate_list_def int_or_def split: if_splits)

lemma validate_list_sortBy:
  "validate_list q = [] \<Longrightarrow>
   (case q_sortBy q of None \<Rightarrow> ''createdAt'' | Some v \<Rightarrow> if v = [] then ''createdAt'' else v)
   = (case q_sortBy q of None \<Rightarrow> ''createdAt'' | Some v \<Rightarrow> v)"
  by (cases "q_sortBy q") (auto simp add: validate_list_def split: if_splits)

lemma matches_build_filter:
  "matches (build_filter uid q text_matches) t =
     (t_user t = uid
      \<and> (case q_completed q of None \<Rightarrow> True | Some v \<Rightarrow> t_completed t = (v = ''true''))
      \<and> (case q_category q of None \<Rightarrow> True
          | Some c \<Rightarrow> c = [] \<or> t_category t = Some (trim c))
      \<and> (case text_matches of None \<Rightarrow> True | Some m \<Rightarrow> m (t_text t)))"
  by (simp add: matches_def build_filter_def split: option.split)

lemma run_query_data:
  "lr_data (run_query store q flt) =
     take (nat (int_or (q_limit q) 10))
       (drop (nat ((int_or (q_page q) 1 - 1) * int_or (q_limit q) 10))
          (sort_docs
             (case q_sortBy q of None \<Rightarrow> ''createdAt''
              | Some v \<Rightarrow> if v = [] then ''createdAt'' else v)
             (if q_sortOrder q = Some ''asc'' then 1 else - 1)
             (filter (matches flt) store)))"
  by (simp add: run_query_def Let_def)

lemma run_query_total:
  "p_totalTodos (lr_pagination (run_query store q flt)) = length (filter (matches flt) store)"
  by (simp add: run_query_def Let_def)

text \<open>
  The answer to a request that passes the validation, in one statement: either the
  store refuses the search pattern, or the items are a page cut from an ordered
  arrangement of the selected tasks and \<open>totalTodos\<close> is their number.
\<close>

lemma list_todos_valid:
  assumes valid: "validate_list q = []"
    and page: "page = (case q_page q of IntValue n \<Rightarrow> n | _ \<Rightarrow> 1)"
    and limit: "limit = (case q_limit q of IntValue n \<Rightarrow> n | _ \<Rightarrow> 10)"
    and sortBy: "sortBy = (case q_sortBy q of None \<Rightarrow> ''createdAt'' | Some v \<Rightarrow> v)"
    and text_condition: "text_condition =
          (case q_search q of
             None \<Rightarrow> Some (\<lambda>text. True)
           | Some s \<Rightarrow> if trim s = [] then Some (\<lambda>text. True) else regex (trim s))"
  shows "1 \<le> page \<and> 1 \<le> limit \<and> limit \<le> 100
    \<and> (case text_condition of
          None \<Rightarrow> list_todos regex store uid q = Inl ServerError
        | Some text_matches \<Rightarrow>
            (\<exists>r sorted.
                list_todos regex store uid q = Inr r
              \<and> mset sorted =
                  mset (filter (\<lambda>t. t_user t = uid
                    \<and> (case q_completed q of None \<Rightarrow> True
                        | Some v \<Rightarrow> t_completed t = (v = ''true''))
                    \<and> (case q_category q of None \<Rightarrow> True
                        | Some c \<Rightarrow> c = [] \<or> t_category t = Some (trim c))
                    \<and> text_matches (t_text t)) store)
              \<and> sorted_wrt (\<lambda>a b. if q_sortOrder q = Some ''asc''
                                   then \<not> bson_lt (sort_field sortBy b) (sort_field sortBy a)
                                   else \<not> bson_lt (sort_field sortBy a) (sort_field sortBy b)) sorted
              \<and> lr_data r = take (nat limit) (drop (nat ((page - 1) * limit)) sorted)
              \<and> p_totalTodos (lr_pagination r) = length sorted))"
proof -
  let ?order = "if q_sortOrder q = Some ''asc'' then 1 else - 1 :: int"
  have p: "int_or (q_page q) 1 = page" "1 \<le> page"
    using validate_list_page [OF valid] page by simp_all
  have l: "int_or (q_limit q) 10 = limit" "1 \<le> limit" "limit \<le> 100"
    using validate_list_limit [OF valid] limit by simp_all
  have s: "(case q_sortBy q of None \<Rightarrow> ''createdAt''
            | Some v \<Rightarrow> if v = [] then ''createdAt'' else v) = sortBy"
    using validate_list_sortBy [OF valid] sortBy by simp
  have ord: "precedes sortBy ?order =
      (\<lambda>a b. if q_sortOrder q = Some ''asc''
              then \<not> bson_lt (sort_field sortBy b) (sort_field sortBy a)
              else \<not> bson_lt (sort_field sortBy a) (sort_field sortBy b))"
    by (intro ext) (simp add: precedes_def)
  have answer: "\<exists>r sorted.
        Inr (run_query store q (build_filter uid q tm)) = (Inr r :: api_error + list_response)
      \<and> mset sorted =
          mset (filter (\<lambda>t. t_user t = uid
            \<and> (case q_completed q of None \<Rightarrow> True
                | Some v \<Rightarrow> t_completed t = (v = ''true''))
            \<and> (case q_category q of None \<Rightarrow> True
                | Some c \<Rightarrow> c = [] \<or> t_category t = Some (trim c))
            \<and> (case tm of None \<Rightarrow> True | Some m \<Rightarrow> m (t_text t))) store)
      \<and> sorted_wrt (\<lambda>a b. if q_sortOrder q = Some ''asc''
                           then \<not> bson_lt (sort_field sortBy b) (sort_field sortBy a)
                           else \<not> bson_lt (sort_field sortBy a) (sort_field sortBy b)) sorted
      \<and> lr_data r = take (nat limit) (drop (nat ((page - 1) * limit)) sorted)
      \<and> p_totalTodos (lr_pagination r) = length sorted" for tm
  proof (intro exI conjI)
    let ?flt = "build_filter uid q tm"
    let ?sorted = "sort_docs sortBy ?order (filter (matches ?flt) store)"
    show "Inr (run_query store q ?flt) = (Inr (run_query store q ?flt) :: api_error + list_response)"
      by (rule refl)
    show "mset ?sorted =
          mset (filter (\<lambda>t. t_user t = uid
            \<and> (case q_completed q of None \<Rightarrow> True
                | Some v \<Rightarrow> t_completed t = (v = ''true''))
            \<and> (case q_category q of None \<Rightarrow> True
                | Some c \<Rightarrow> c = [] \<or> t_category t = Some (trim c))
            \<and> (case tm of None \<Rightarrow> True | Some m \<Rightarrow> m (t_text t))) store)"
      unfolding mset_sort_docs matches_build_filter by (rule refl)
    show "sorted_wrt (\<lambda>a b. if q_sortOrder q = Some ''asc''
                           then \<not> bson_lt (sort_field sortBy b) (sort_field sortBy a)
                           else \<not> bson_lt (sort_field sortBy a) (sort_field sortBy b)) ?sorted"
      using sorted_sort_docs [of sortBy ?order] unfolding ord .
    show "lr_data (run_query store q ?flt) =
            take (nat limit) (drop (nat ((page - 1) * limit)) ?sorted)"
      unfolding run_query_data p l s by (rule refl)
    show "p_totalTodos (lr_pagination (run_query store q ?flt)) = length ?sorted"
      unfolding run_query_total length_sort_docs by (rule refl)
  qed
  have result: "case text_condition of
          None \<Rightarrow> list_todos regex store uid q = Inl ServerError
        | Some text_matches \<Rightarrow>
            (\<exists>r sorted.
                list_todos regex store uid q = Inr r
              \<and> mset sorted =
                  mset (filter (\<lambda>t. t_user t = uid
                    \<and> (case q_completed q of None \<Rightarrow> True
                        | Some v \<Rightarrow> t_completed t = (v = ''true''))
                    \<and> (case q_category q of None \<Rightarrow> True
                        | Some c \<Rightarrow> c = [] \<or> t_category t = Some (trim c))
                    \<and> text_matches (t_text t)) store)
              \<and> sorted_wrt (\<lambda>a b. if q_sortOrder q = Some ''asc''
                                   then \<not> bson_lt (sort_field sortBy b) (sort_field sortBy a)
                                   else \<not> bson_lt (sort_field sortBy a) (sort_field sortBy b)) sorted
              \<and> lr_data r = take (nat limit) (drop (nat ((page - 1) * limit)) sorted)
              \<and> p_totalTodos (lr_pagination r) = length sorted)"
  proof (cases "search_pattern q")
    case None
    then have tc: "text_condition = Some (\<lambda>text. True)"
      unfolding text_condition by (simp add: search_pattern_def split: option.splits if_splits)
    have lt: "list_todos regex store uid q = Inr (run_query store q (build_filter uid q None))"
      by (simp add: list_todos_def valid None)
    show ?thesis
      unfolding tc lt using answer [of None] by simp
  next
    case (Some p)
    then have tc: "text_condition = regex p"
      unfolding text_condition by (auto simp add: search_pattern_def split: option.splits if_splits)
    show ?thesis
    proof (cases "regex p")
      case None
      then show ?thesis
        unfolding tc by (simp add: list_todos_def valid Some)
    next
      case (Some m)
      have lt: "list_todos regex store uid q =
                  Inr (run_query store q (build_filter uid q (Some m)))"
        by (simp add: list_todos_def valid \<open>search_pattern q = Some p\<close> Some)
      show ?thesis
        unfolding tc Some lt using answer [of "Some m"] by simp
    qed
  qed
  from p(2) l(2,3) result show ?thesis
    by (intro conjI)
qed

text \<open>
  C7. For every owner and every valid combination of \<open>page\<close> and \<open>limit\<close> (a page that
  is absent, read as 1, or at least 1; a limit that is absent, read as 10, or between 1
  and 100; their product within the integers JavaScript represents exactly), a request
  that passes the validation is answered in one of two ways. If the store refuses the
  search pattern, the answer is the server error. Otherwise the items are the tasks
  selected by the filter of the request, put in the order of the requested key and
  direction, after skipping \<open>(page - 1) * limit\<close> of them and taking \<open>limit\<close>: there
  are at most \<open>limit\<close> items and at most \<open>totalTodos\<close>, and \<open>totalTodos\<close> is the
  number of tasks selected by that same filter, before pagination. The filter selects
  the owner's tasks whose completed flag, category and text meet the conditions the
  request supplies.
\<close>

theorem list_todos_pagination:
  assumes "validate_list q = []"
    and "page = (case q_page q of IntValue n \<Rightarrow> n | _ \<Rightarrow> 1)"
    and "limit = (case q_limit q of IntValue n \<Rightarrow> n | _ \<Rightarrow> 10)"
    and "page * limit \<le> max_safe_integer"
    and "sortBy = (case q_sortBy q of None \<Rightarrow> ''createdAt'' | Some v \<Rightarrow> v)"
    and "text_condition =
          (case q_search q of
             None \<Rightarrow> Some (\<lambda>text. True)
           | Some s \<Rightarrow> if trim s = [] then Some (\<lambda>text. True) else regex (trim s))"
  shows "1 \<le> page \<and> 1 \<le> limit \<and> limit \<le> 100
    \<and> (case text_condition of
          None \<Rightarrow> list_todos regex store uid q = Inl ServerError
        | Some text_matches \<Rightarrow>
            (\<exists>r sorted selected.
                list_todos regex store uid q = Inr r
              \<and> selected =
                  filter (\<lambda>t. t_user t = uid
                    \<and> (case q_completed q of None \<Rightarrow> True
                        | Some v \<Rightarrow> t_completed t = (v = ''true''))
                    \<and> (case q_category q of None \<Rightarrow> True
                        | Some c \<Rightarrow> c = [] \<or> t_category t = Some (trim c))
                    \<and> text_matches (t_text t)) store
              \<and> mset sorted = mset selected
              \<and> sorted_wrt (\<lambda>a b. if q_sortOrder q = Some ''asc''
                                   then \<not> bson_lt (sort_field sortBy b) (sort_field sortBy a)
                                   else \<not> bson_lt (sort_field sortBy a) (sort_field sortBy b)) sorted
              \<and> lr_data r = take (nat limit) (drop (nat ((page - 1) * limit)) sorted)
              \<and> p_totalTodos (lr_pagination r) = length selected
              \<and> length (lr_data r) \<le> nat limit
              \<and> length (lr_data r) \<le> p_totalTodos (lr_pagination r)))"
proof -
  note answer = list_todos_valid [OF assms(1) assms(2) assms(3) assms(5) assms(6),
      where store = store and uid = uid]
  note range = answer [THEN conjunct1] answer [THEN conjunct2, THEN conjunct1]
    answer [THEN conjunct2, THEN conjunct2, THEN conjunct1]
  note result = answer [THEN conjunct2, THEN conjunct2, THEN conjunct2]
  show ?thesis
  proof (cases text_condition)
    case None
    from result have "list_todos regex store uid q = Inl ServerError"
      unfolding None option.case .
    with range show ?thesis
      unfolding None option.case by (intro conjI)
  next
    case (Some text_matches)
    let ?selected = "filter (\<lambda>t. t_user t = uid
                    \<and> (case q_completed q of None \<Rightarrow> True
                        | Some v \<Rightarrow> t_completed t = (v = ''true''))
                    \<and> (case q_category q of None \<Rightarrow> True
                        | Some c \<Rightarrow> c = [] \<or> t_category t = Some (trim c))
                    \<and> text_matches (t_text t)) store"
    let ?before = "\<lambda>a b. if q_sortOrder q = Some ''asc''
                                   then \<not> bson_lt (sort_field sortBy b) (sort_field sortBy a)
                                   else \<not> bson_lt (sort_field sortBy a) (sort_field sortBy b)"
    from result have "\<exists>r sorted.
                list_todos regex store uid q = Inr r
              \<and> mset sorted = mset ?selected
              \<and> sorted_wrt ?before sorted
              \<and> lr_data r = take (nat limit) (drop (nat ((page - 1) * limit)) sorted)
              \<and> p_totalTodos (lr_pagination r) = length sorted"
      unfolding Some option.case .
    then obtain r sorted where
      r: "list_todos regex store uid q = Inr r"
      and m: "mset sorted = mset ?selected"
      and s: "sorted_wrt ?before sorted"
      and d: "lr_data r = take (nat limit) (drop (nat ((page - 1) * limit)) sorted)"
      and t: "p_totalTodos (lr_pagination r) = length sorted"
      by (elim exE conjE)
    from m have len: "length sorted = length ?selected"
      by (rule mset_eq_length)
    have t': "p_totalTodos (lr_pagination r) = length ?selected"
      unfolding t len by (rule refl)
    have l1: "length (lr_data r) \<le> nat limit"
      unfolding d by simp
    have l2: "length (lr_data r) \<le> p_totalTodos (lr_pagination r)"
      unfolding d t by simp
    have "\<exists>r sorted selected.
                list_todos regex store uid q = Inr r
              \<and> selected = ?selected
              \<and> mset sorted = mset selected
              \<and> sorted_wrt ?before sorted
              \<and> lr_data r = take (nat limit) (drop (nat ((page - 1) * limit)) sorted)
              \<and> p_totalTodos (lr_pagination r) = length selected
              \<and> length (lr_data r) \<le> nat limit
              \<and> length (lr_data r) \<le> p_totalTodos (lr_pagination r)"
    proof (intro exI conjI)
      show "list_todos regex store uid q = Inr r" by (rule r)
      show "?selected = ?selected" by (rule refl)
      show "mset sorted = mset ?selected" by (rule m)
      show "sorted_wrt ?before sorted" by (rule s)
      show "lr_data r = take (nat limit) (drop (nat ((page - 1) * limit)) sorted)" by (rule d)
      show "p_totalTodos (lr_pagination r) = length ?selected" by (rule t')
      show "length (lr_data r) \<le> nat limit" by (rule l1)
      show "length (lr_data r) \<le> p_totalTodos (lr_pagination r)" by (rule l2)
    qed
    with range show ?thesis
      unfolding Some option.case by (intro conjI)
  qed
qed

theorem list_todos_pagination_witness:
  "\<exists>r. list_todos (fragment_regex ascii_lower)
        [\<lparr>t_id = 1, t_user = 7, t_text = ''Buy milk'', t_completed = False,
          t_deadline = None, t_priority = ''medium'', t_category = None,
          t_createdAt = 1699999000000, t_updatedAt = 1699999000000\<rparr>,
         \<lparr>t_id = 2, t_user = 7, t_text = ''File taxes'', t_completed = False,
          t_deadline = Some 1699913600000, t_priority = ''medium'', t_category = None,
          t_createdAt = 1699999000001, t_updatedAt = 1699999000001\<rparr>,
         \<lparr>t_id = 3, t_user = 8, t_text = ''Call Ann'', t_completed = False,
          t_deadline = None, t_priority = ''medium'', t_category = None,
          t_createdAt = 1699999000002, t_updatedAt = 1699999000002\<rparr>] 7
        \<lparr>q_page = IntValue 2, q_limit = IntValue 1, q_completed = Some ''false'',
         q_category = None, q_search = Some ''I'', q_sortBy = Some ''text'',
         q_sortOrder = Some ''asc''\<rparr> = Inr r
    \<and> p_totalTodos (lr_pagination r) = 2
    \<and> length (lr_data r) \<le> 1"
proof -
  let ?store = "[\<lparr>t_id = 1, t_user = 7, t_text = ''Buy milk'', t_completed = False,
          t_deadline = None, t_priority = ''medium'', t_category = None,
          t_createdAt = 1699999000000, t_updatedAt = 1699999000000\<rparr>,
         \<lparr>t_id = 2, t_user = 7, t_text = ''File taxes'', t_completed = False,
          t_deadline = Some 1699913600000, t_priority = ''medium'', t_category = None,
          t_createdAt = 1699999000001, t_updatedAt = 1699999000001\<rparr>,
         \<lparr>t_id = 3, t_user = 8, t_text = ''Call Ann'', t_completed = False,
          t_deadline = None, t_priority = ''medium'', t_category = None,
          t_createdAt = 1699999000002, t_updatedAt = 1699999000002\<rparr>]"
  let ?q = "\<lparr>q_page = IntValue 2, q_limit = IntValue 1, q_completed = Some ''false'',
         q_category = None, q_search = Some ''I'', q_sortBy = Some ''text'',
         q_sortOrder = Some ''asc''\<rparr>"
  let ?m = "regex_search ascii_lower [Lit CHR ''I'']"
  have tr: "trim ''I'' = ''I''"
    by (simp add: trim_def is_space_def)
  have v: "validate_list ?q = []"
    by (simp add: validate_list_def tr)
  have p: "2 = (case q_page ?q of IntValue n \<Rightarrow> n | _ \<Rightarrow> 1)"
    by simp
  have l: "1 = (case q_limit ?q of IntValue n \<Rightarrow> n | _ \<Rightarrow> 10)"
    by simp
  have safe: "(2 :: int) * 1 \<le> max_safe_integer"
    by (simp add: max_safe_integer_def)
  have s: "''text'' = (case q_sortBy ?q of None \<Rightarrow> ''createdAt'' | Some v \<Rightarrow> v)"
    by simp
  have c: "Some ?m =
          (case q_search ?q of
             None \<Rightarrow> Some (\<lambda>text. True)
           | Some s \<Rightarrow> if trim s = [] then Some (\<lambda>text. True)
                       else fragment_regex ascii_lower (trim s))"
    by (simp add: tr fragment_regex_def regex_meta_def)
  note inst = list_todos_pagination [OF v p l safe s c, where store = ?store and uid = 7,
      THEN conjunct2, THEN conjunct2, THEN conjunct2, unfolded option.case]
  from inst obtain r sorted selected where
    r: "list_todos (fragment_regex ascii_lower) ?store 7 ?q = Inr r"
    and sel: "selected =
        filter (\<lambda>t. t_user t = 7
          \<and> (case q_completed ?q of None \<Rightarrow> True
              | Some v \<Rightarrow> t_completed t = (v = ''true''))
          \<and> (case q_category ?q of None \<Rightarrow> True
              | Some c \<Rightarrow> c = [] \<or> t_category t = Some (trim c))
          \<and> ?m (t_text t)) ?store"
    and t: "p_totalTodos (lr_pagination r) = length selected"
    and l1: "length (lr_data r) \<le> nat 1"
    by (elim exE conjE)
  have i: "char_of (105 :: nat) = CHR ''i''"
    by code_simp
  have "length selected = 2"
    unfolding sel by (simp add: i ascii_lower_def)
  with r t l1 show ?thesis
    by (intro exI [of _ r]) simp
qed

subsection \<open>Search\<close>

lemma not_meta_not_dot: "c \<notin> set regex_meta \<Longrightarrow> c \<noteq> CHR ''.''"
  by (auto simp add: regex_meta_def)

lemma parse_regex_literal:
  "\<forall>c \<in> set s. c \<notin> set regex_meta \<Longrightarrow> parse_regex s = Some (map Lit s)"
  by (induction s) (simp_all add: not_meta_not_dot)

lemma match_here_literal:
  "match_here casefold (map Lit p) t = (\<exists>after. map casefold t = map casefold p @ after)"
proof (induction p arbitrary: t)
  case Nil
  show ?case by simp
next
  case (Cons a p)
  show ?case
    by (cases t) (auto simp add: Cons.IH)
qed

lemma regex_search_literal:
  "regex_search casefold (map Lit p) t = contains_ci casefold p t"
proof (induction t)
  case Nil
  show ?case
    by (simp add: match_here_literal contains_ci_def)
next
  case (Cons c cs)
  have "contains_ci casefold p (c # cs) =
          ((\<exists>after. map casefold (c # cs) = map casefold p @ after) \<or> contains_ci casefold p cs)"
  proof
    assume "contains_ci casefold p (c # cs)"
    then obtain before after where
      e: "casefold c # map casefold cs = before @ map casefold p @ after"
      by (auto simp add: contains_ci_def)
    show "(\<exists>after. map casefold (c # cs) = map casefold p @ after) \<or> contains_ci casefold p cs"
    proof (cases before)
      case Nil
      with e show ?thesis by auto
    next
      case (Cons b bs)
      with e have "map casefold cs = bs @ map casefold p @ after" by simp
      then show ?thesis by (auto simp add: contains_ci_def)
    qed
  next
    assume "(\<exists>after. map casefold (c # cs) = map casefold p @ after) \<or> contains_ci casefold p cs"
    then show "contains_ci casefold p (c # cs)"
    proof
      assume "\<exists>after. map casefold (c # cs) = map casefold p @ after"
      then obtain after where "map casefold (c # cs) = [] @ map casefold p @ after" by auto
      then show ?thesis unfolding contains_ci_def by blast
    next
      assume "contains_ci casefold p cs"
      then obtain before after where "map casefold cs = before @ map casefold p @ after"
        by (auto simp add: contains_ci_def)
      then have "map casefold (c # cs) = (casefold c # before) @ map casefold p @ after"
        by simp
      then show ?thesis unfolding contains_ci_def by blast
    qed
  qed
  then show ?case
    by (simp add: Cons.IH match_here_literal)
qed

lemma contains_ci_empty: "contains_ci casefold [] t"
  unfolding contains_ci_def by (rule exI [of _ "[]"]) simp

lemma regex_literal:
  assumes "agrees_on_literals casefold regex"
    and "\<forall>c \<in> set p. c \<notin> set regex_meta"
  shows "regex p = Some (contains_ci casefold p)"
proof -
  from assms have "regex p = Some (regex_search casefold (map Lit p))"
    unfolding agrees_on_literals_def by blast
  moreover have "regex_search casefold (map Lit p) = contains_ci casefold p"
    by (intro ext) (rule regex_search_literal)
  ultimately show ?thesis
    by simp
qed

lemma agrees_fragment_regex: "agrees_on_literals casefold (fragment_regex casefold)"
  by (simp add: agrees_on_literals_def fragment_regex_def parse_regex_literal)

lemma ceiling_tenth: "\<lceil>(1 :: rat) / 10\<rceil> = 1"
  by (rule ceiling_unique) simp_all

lemma ascii_lower_examples:
  "ascii_lower CHR ''a'' = CHR ''a''" "ascii_lower CHR ''b'' = CHR ''b''"
  "ascii_lower CHR ''c'' = CHR ''c''" "ascii_lower CHR ''.'' = CHR ''.''"
  "ascii_lower CHR '' '' = CHR '' ''"
  by (simp_all add: ascii_lower_def)

lemma trim_examples:
  "trim ''a.c'' = ''a.c''" "trim ''b '' = ''b''" "trim '' work '' = ''work''"
  by (simp_all add: trim_def is_space_def)

text \<open>
  C2. For every search string of at most 100 characters the listing returns exactly the
  tasks whose text contains the search string as a literal substring, letter case aside,
  together with the owner, completed and category conditions. Four requests on a store
  with one task of owner 7 (text \<open>abc\<close>, category \<open>work\<close>, not completed) show
  otherwise. Each returns the task, and the task is not selected in the words of the
  specification: the search \<open>a.c\<close>, which the store reads as a pattern; the search \<open>b\<close>
  followed by a space, which the validation chain trims; \<open>completed=1\<close>, which the
  validation accepts as a Boolean and the handler reads as false; and the category
  \<open>work\<close> between two spaces, which the store trims as the schema says.
\<close>

theorem list_todos_not_the_literal_filters:
  "list_todos (fragment_regex ascii_lower)
     [\<lparr>t_id = 1, t_user = 7, t_text = ''abc'', t_completed = False,
       t_deadline = None, t_priority = ''medium'', t_category = Some ''work'',
       t_createdAt = 1699999000000, t_updatedAt = 1699999000000\<rparr>] 7
     \<lparr>q_page = IntAbsent, q_limit = IntAbsent, q_completed = None, q_category = None,
      q_search = Some ''a.c'', q_sortBy = None, q_sortOrder = None\<rparr>
   = Inr \<lparr>lr_success = True,
          lr_data = [\<lparr>t_id = 1, t_user = 7, t_text = ''abc'', t_completed = False,
                      t_deadline = None, t_priority = ''medium'', t_category = Some ''work'',
                      t_createdAt = 1699999000000, t_updatedAt = 1699999000000\<rparr>],
          lr_pagination = \<lparr>p_current = 1, p_total = 1, p_hasNext = False, p_hasPrev = False,
                            p_totalTodos = 1\<rparr>\<rparr>
   \<and> \<not> spec_selected ascii_lower 7 None None ''a.c''
       \<lparr>t_id = 1, t_user = 7, t_text = ''abc'', t_completed = False,
        t_deadline = None, t_priority = ''medium'', t_category = Some ''work'',
        t_createdAt = 1699999000000, t_updatedAt = 1699999000000\<rparr>
   \<and> list_todos (fragment_regex ascii_lower)
     [\<lparr>t_id = 1, t_user = 7, t_text = ''abc'', t_completed = False,
       t_deadline = None, t_priority = ''medium'', t_category = Some ''work'',
       t_createdAt = 1699999000000, t_updatedAt = 1699999000000\<rparr>] 7
     \<lparr>q_page = IntAbsent, q_limit = IntAbsent, q_completed = None, q_category = None,
      q_search = Some ''b '', q_sortBy = None, q_sortOrder = None\<rparr>
   = Inr \<lparr>lr_success = True,
          lr_data = [\<lparr>t_id = 1, t_user = 7, t_text = ''abc'', t_completed = False,
                      t_deadline = None, t_priority = ''medium'', t_category = Some ''work'',
                      t_createdAt = 1699999000000, t_updatedAt = 1699999000000\<rparr>],
          lr_pagination = \<lparr>p_current = 1, p_total = 1, p_hasNext = False, p_hasPrev = False,
                            p_totalTodos = 1\<rparr>\<rparr>
   \<and> \<not> spec_selected ascii_lower 7 None None ''b ''
       \<lparr>t_id = 1, t_user = 7, t_text = ''abc'', t_completed = False,
        t_deadline = None, t_priority = ''medium'', t_category = Some ''work'',
        t_createdAt = 1699999000000, t_updatedAt = 1699999000000\<rparr>
   \<and> list_todos (fragment_regex ascii_lower)
     [\<lparr>t_id = 1, t_user = 7, t_text = ''abc'', t_completed = False,
       t_deadline = None, t_priority = ''medium'', t_category = Some ''work'',
       t_createdAt = 1699999000000, t_updatedAt = 1699999000000\<rparr>] 7
     \<lparr>q_page = IntAbsent, q_limit = IntAbsent, q_completed = Some ''1'', q_category = None,
      q_search = None, q_sortBy = None, q_sortOrder = None\<rparr>
   = Inr \<lparr>lr_success = True,
          lr_data = [\<lparr>t_id = 1, t_user = 7, t_text = ''abc'', t_completed = False,
                      t_deadline = None, t_priority = ''medium'', t_category = Some ''work'',
                      t_createdAt = 1699999000000, t_updatedAt = 1699999000000\<rparr>],
          lr_pagination = \<lparr>p_current = 1, p_total = 1, p_hasNext = False, p_hasPrev = False,
                            p_totalTodos = 1\<rparr>\<rparr>
   \<and> \<not> spec_selected ascii_lower 7 (Some (spec_flag ''1'')) None []
       \<lparr>t_id = 1, t_user = 7, t_text = ''abc'', t_completed = False,
        t_deadline = None, t_priority = ''medium'', t_category = Some ''work'',
        t_createdAt = 1699999000000, t_updatedAt = 1699999000000\<rparr>
   \<and> list_todos (fragment_regex ascii_lower)
     [\<lparr>t_id = 1, t_user = 7, t_text = ''abc'', t_completed = False,
       t_deadline = None, t_priority = ''medium'', t_category = Some ''work'',
       t_createdAt = 1699999000000, t_updatedAt = 1699999000000\<rparr>] 7
     \<lparr>q_page = IntAbsent, q_limit = IntAbsent, q_completed = None,
      q_category = Some '' work '', q_search = None, q_sortBy = None, q_sortOrder = None\<rparr>
   = Inr \<lparr>lr_success = True,
          lr_data = [\<lparr>t_id = 1, t_user = 7, t_text = ''abc'', t_completed = False,
                      t_deadline = None, t_priority = ''medium'', t_category = Some ''work'',
                      t_createdAt = 1699999000000, t_updatedAt = 1699999000000\<rparr>],
          lr_pagination = \<lparr>p_current = 1, p_total = 1, p_hasNext = False, p_hasPrev = False,
                            p_totalTodos = 1\<rparr>\<rparr>
   \<and> \<not> spec_selected ascii_lower 7 None (Some '' work '') []
       \<lparr>t_id = 1, t_user = 7, t_text = ''abc'', t_completed = False,
        t_deadline = None, t_priority = ''medium'', t_category = Some ''work'',
        t_createdAt = 1699999000000, t_updatedAt = 1699999000000\<rparr>"
proof (intro conjI)
  show "\<not> spec_selected ascii_lower 7 None None ''a.c''
       \<lparr>t_id = 1, t_user = 7, t_text = ''abc'', t_completed = False,
        t_deadline = None, t_priority = ''medium'', t_category = Some ''work'',
        t_createdAt = 1699999000000, t_updatedAt = 1699999000000\<rparr>"
    unfolding spec_selected_def regex_search_literal [symmetric]
    by (simp add: ascii_lower_examples)
  show "\<not> spec_selected ascii_lower 7 None None ''b ''
       \<lparr>t_id = 1, t_user = 7, t_text = ''abc'', t_completed = False,
        t_deadline = None, t_priority = ''medium'', t_category = Some ''work'',
        t_createdAt = 1699999000000, t_updatedAt = 1699999000000\<rparr>"
    unfolding spec_selected_def regex_search_literal [symmetric]
    by (simp add: ascii_lower_examples)
  show "\<not> spec_selected ascii_lower 7 (Some (spec_flag ''1'')) None []
       \<lparr>t_id = 1, t_user = 7, t_text = ''abc'', t_completed = False,
        t_deadline = None, t_priority = ''medium'', t_category = Some ''work'',
        t_createdAt = 1699999000000, t_updatedAt = 1699999000000\<rparr>"
    by (simp add: spec_selected_def spec_flag_def)
  show "\<not> spec_selected ascii_lower 7 None (Some '' work '') []
       \<lparr>t_id = 1, t_user = 7, t_text = ''abc'', t_completed = False,
        t_deadline = None, t_priority = ''medium'', t_category = Some ''work'',
        t_createdAt = 1699999000000, t_updatedAt = 1699999000000\<rparr>"
    by (simp add: spec_selected_def)
qed (simp_all add: list_todos_def validate_list_def search_pattern_def trim_examples
       ascii_lower_examples ceiling_tenth regex_meta_def fragment_regex_def
       run_query_def build_filter_def matches_def int_or_def sort_docs_def Let_def)

text \<open>
  C2, amended. For every owner and every request that passes the validation, whose
  completed parameter is absent, \<open>true\<close> or \<open>false\<close>, and whose search string, once
  trimmed, has no metacharacter of the pattern language (with a store that matches
  such a pattern as the sequence of its characters, letter case aside, and
  \<open>page * limit\<close> within the exact integers): the listing answers, and it selects
  exactly the owner's tasks that have the requested completed flag, whose category is
  the trimmed category parameter when that parameter is supplied and not empty, and
  whose text contains the trimmed search string as a substring, letter case aside.
  \<open>totalTodos\<close> is their number, the items are the requested page of an arrangement
  of them, and when they fit on the first page the items are all of them.
\<close>

theorem list_todos_literal_search:
  assumes "validate_list q = []"
    and "agrees_on_literals casefold regex"
    and "q_completed q = None \<or> q_completed q = Some ''true'' \<or> q_completed q = Some ''false''"
    and "category = (case q_category q of None \<Rightarrow> None
                     | Some c \<Rightarrow> if c = [] then None else Some (trim c))"
    and "search = (case q_search q of None \<Rightarrow> [] | Some s \<Rightarrow> trim s)"
    and "\<forall>c \<in> set search. c \<notin> set regex_meta"
    and "page = (case q_page q of IntValue n \<Rightarrow> n | _ \<Rightarrow> 1)"
    and "limit = (case q_limit q of IntValue n \<Rightarrow> n | _ \<Rightarrow> 10)"
    and "page * limit \<le> max_safe_integer"
    and "selected =
          filter (spec_selected casefold uid (map_option spec_flag (q_completed q))
                    category search) store"
  shows "\<exists>r sorted.
      list_todos regex store uid q = Inr r
    \<and> p_totalTodos (lr_pagination r) = length selected
    \<and> mset sorted = mset selected
    \<and> lr_data r = take (nat limit) (drop (nat ((page - 1) * limit)) sorted)
    \<and> set (lr_data r) \<subseteq> set selected
    \<and> (page = 1 \<and> length selected \<le> nat limit \<longrightarrow> mset (lr_data r) = mset selected)"
proof -
  let ?tc = "Some (contains_ci casefold search)"
  have tc: "?tc = (case q_search q of
             None \<Rightarrow> Some (\<lambda>text. True)
           | Some s \<Rightarrow> if trim s = [] then Some (\<lambda>text. True) else regex (trim s))"
  proof (cases "q_search q")
    case None
    with assms(5) have "search = []" by simp
    then have "contains_ci casefold search = (\<lambda>text. True)"
      by (intro ext) (simp add: contains_ci_empty)
    with None show ?thesis by simp
  next
    case (Some s)
    with assms(5) have s: "search = trim s" by simp
    show ?thesis
    proof (cases "trim s = []")
      case True
      with s have "contains_ci casefold search = (\<lambda>text. True)"
        by (intro ext) (simp add: contains_ci_empty)
      with Some True show ?thesis by simp
    next
      case False
      from regex_literal [OF assms(2) assms(6)] s
      have "regex (trim s) = Some (contains_ci casefold search)" by simp
      with Some False show ?thesis by simp
    qed
  qed
  have sel: "(\<lambda>t. t_user t = uid
          \<and> (case q_completed q of None \<Rightarrow> True
              | Some v \<Rightarrow> t_completed t = (v = ''true''))
          \<and> (case q_category q of None \<Rightarrow> True
              | Some c \<Rightarrow> c = [] \<or> t_category t = Some (trim c))
          \<and> contains_ci casefold search (t_text t))
        = spec_selected casefold uid (map_option spec_flag (q_completed q)) category search"
  proof (intro ext)
    fix t :: todo
    have f: "(case q_completed q of None \<Rightarrow> True | Some v \<Rightarrow> t_completed t = (v = ''true''))
           = (case map_option spec_flag (q_completed q) of None \<Rightarrow> True
              | Some flag \<Rightarrow> t_completed t = flag)"
      using assms(3) by (auto simp add: spec_flag_def)
    have c: "(case q_category q of None \<Rightarrow> True
              | Some c \<Rightarrow> c = [] \<or> t_category t = Some (trim c))
           = (case category of None \<Rightarrow> True | Some c \<Rightarrow> t_category t = Some c)"
      unfolding assms(4) by (simp split: option.split)
    show "(t_user t = uid
          \<and> (case q_completed q of None \<Rightarrow> True
              | Some v \<Rightarrow> t_completed t = (v = ''true''))
          \<and> (case q_category q of None \<Rightarrow> True
              | Some c \<Rightarrow> c = [] \<or> t_category t = Some (trim c))
          \<and> contains_ci casefold search (t_text t))
        = spec_selected casefold uid (map_option spec_flag (q_completed q)) category search t"
      unfolding spec_selected_def f c by (rule refl)
  qed
  note answer = list_todos_valid [OF assms(1) assms(7) assms(8) refl tc,
      where store = store and uid = uid, THEN conjunct2, THEN conjunct2, THEN conjunct2,
      unfolded option.case sel, folded assms(10)]
  from answer obtain r sorted where
    r: "list_todos regex store uid q = Inr r"
    and m: "mset sorted = mset selected"
    and d: "lr_data r = take (nat limit) (drop (nat ((page - 1) * limit)) sorted)"
    and t: "p_totalTodos (lr_pagination r) = length sorted"
    by (elim exE conjE)
  from m have len: "length sorted = length selected"
    by (rule mset_eq_length)
  from m have set: "set sorted = set selected"
    by (rule mset_eq_setD)
  have sub: "set (lr_data r) \<subseteq> set selected"
    unfolding d set [symmetric] by (meson set_take_subset set_drop_subset subset_trans)
  have full: "page = 1 \<and> length selected \<le> nat limit \<longrightarrow> mset (lr_data r) = mset selected"
  proof
    assume "page = 1 \<and> length selected \<le> nat limit"
    then have "lr_data r = sorted"
      unfolding d by (simp add: len)
    with m show "mset (lr_data r) = mset selected"
      by simp
  qed
  show ?thesis
  proof (intro exI conjI)
    show "list_todos regex store uid q = Inr r" by (rule r)
    show "p_totalTodos (lr_pagination r) = length selected" unfolding t len by (rule refl)
    show "mset sorted = mset selected" by (rule m)
    show "lr_data r = take (nat limit) (drop (nat ((page - 1) * limit)) sorted)" by (rule d)
    show "set (lr_data r) \<subseteq> set selected" by (rule sub)
    show "page = 1 \<and> length selected \<le> nat limit \<longrightarrow> mset (lr_data r) = mset selected"
      by (rule full)
  qed
qed

theorem list_todos_literal_search_witness:
  "\<exists>r. list_todos (fragment_regex ascii_lower)
        [\<lparr>t_id = 1, t_user = 7, t_text = ''Buy milk'', t_completed = False,
          t_deadline = None, t_priority = ''medium'', t_category = Some ''home'',
          t_createdAt = 1699999000000, t_updatedAt = 1699999000000\<rparr>,
         \<lparr>t_id = 2, t_user = 7, t_text = ''File taxes'', t_completed = False,
          t_deadline = Some 1699913600000, t_priority = ''medium'', t_category = Some ''home'',
          t_createdAt = 1699999000001, t_updatedAt = 1699999000001\<rparr>] 7
        \<lparr>q_page = IntAbsent, q_limit = IntAbsent, q_completed = Some ''false'',
         q_category = Some '' home '', q_search = Some '' MILK '', q_sortBy = None,
         q_sortOrder = None\<rparr> = Inr r
    \<and> p_totalTodos (lr_pagination r) = 1
    \<and> mset (lr_data r) =
        mset [\<lparr>t_id = 1, t_user = 7, t_text = ''Buy milk'', t_completed = False,
          t_deadline = None, t_priority = ''medium'', t_category = Some ''home'',
          t_createdAt = 1699999000000, t_updatedAt = 1699999000000\<rparr>]"
proof -
  let ?t1 = "\<lparr>t_id = 1, t_user = 7, t_text = ''Buy milk'', t_completed = False,
          t_deadline = None, t_priority = ''medium'', t_category = Some ''home'',
          t_createdAt = 1699999000000, t_updatedAt = 1699999000000\<rparr>"
  let ?t2 = "\<lparr>t_id = 2, t_user = 7, t_text = ''File taxes'', t_completed = False,
          t_deadline = Some 1699913600000, t_priority = ''medium'', t_category = Some ''home'',
          t_createdAt = 1699999000001, t_updatedAt = 1699999000001\<rparr>"
  let ?q = "\<lparr>q_page = IntAbsent, q_limit = IntAbsent, q_completed = Some ''false'',
         q_category = Some '' home '', q_search = Some '' MILK '', q_sortBy = None,
         q_sortOrder = None\<rparr>"
  have tr: "trim '' MILK '' = ''MILK''" "trim '' home '' = ''home''"
    by (simp_all add: trim_def is_space_def)
  have v: "validate_list ?q = []"
    by (simp add: validate_list_def tr)
  have f: "q_completed ?q = None \<or> q_completed ?q = Some ''true''
           \<or> q_completed ?q = Some ''false''"
    by simp
  have c: "Some ''home'' = (case q_category ?q of None \<Rightarrow> None
                     | Some c \<Rightarrow> if c = [] then None else Some (trim c))"
    by (simp add: tr)
  have s: "''MILK'' = (case q_search ?q of None \<Rightarrow> [] | Some s \<Rightarrow> trim s)"
    by (simp add: tr)
  have m: "\<forall>c \<in> set ''MILK''. c \<notin> set regex_meta"
    by (simp add: regex_meta_def)
  have p: "1 = (case q_page ?q of IntValue n \<Rightarrow> n | _ \<Rightarrow> 1)"
    by simp
  have l: "10 = (case q_limit ?q of IntValue n \<Rightarrow> n | _ \<Rightarrow> 10)"
    by simp
  have safe: "(1 :: int) * 10 \<le> max_safe_integer"
    by (simp add: max_safe_integer_def)
  have lower: "char_of (109 :: nat) = CHR ''m''" "char_of (105 :: nat) = CHR ''i''"
    "char_of (108 :: nat) = CHR ''l''" "char_of (107 :: nat) = CHR ''k''"
    by code_simp+
  have yes: "spec_selected ascii_lower 7 (map_option spec_flag (q_completed ?q))
               (Some ''home'') ''MILK'' ?t1"
    unfolding spec_selected_def regex_search_literal [symmetric]
    by (simp add: spec_flag_def lower ascii_lower_def)
  have no: "\<not> spec_selected ascii_lower 7 (map_option spec_flag (q_completed ?q))
               (Some ''home'') ''MILK'' ?t2"
    unfolding spec_selected_def regex_search_literal [symmetric]
    by (simp add: spec_flag_def lower ascii_lower_def)
  have sel: "[?t1] = filter (spec_selected ascii_lower 7 (map_option spec_flag (q_completed ?q))
                      (Some ''home'') ''MILK'') [?t1, ?t2]"
    using yes no by simp
  from list_todos_literal_search [OF v agrees_fragment_regex f c s m p l safe sel]
  obtain r sorted where
    r: "list_todos (fragment_regex ascii_lower) [?t1, ?t2] 7 ?q = Inr r"
    and t: "p_totalTodos (lr_pagination r) = length [?t1]"
    and full: "1 = (1 :: int) \<and> length [?t1] \<le> nat 10 \<longrightarrow> mset (lr_data r) = mset [?t1]"
    by (elim exE conjE)
  from full have "mset (lr_data r) = mset [?t1]"
    by simp
  with r t show ?thesis
    by (intro exI [of _ r]) simp
qed

end
